theory Spec2Isabelle
  imports Main
begin

section \<open>The WhatsApp gateway controller (controllers/waController.js)\<close>

text \<open>
  The controller keeps three module-level tables: \<open>sessions\<close> (apiKey to socket),
  \<open>reconnecting\<close> (apiKey to boolean) and \<open>sseClients\<close> (apiKey to a Set of response
  objects). Every request handler and every socket event handler is embedded as a function
  from the controller state to the new state, run to completion. The handlers are async
  functions, and the event loop may run another handler while one of them awaits;
  \<open>createSocketForUser\<close>, whose awaits separate its test of \<open>sessions\<close> from its
  assignment to it, is therefore given in its two halves as well.

  What the controller cannot decide itself is an explicit parameter: the answers of the
  Baileys socket, of Node's library functions and of the sinks are fields of an
  environment record. \<open>saveLog\<close> swallows its own errors and only writes to the external
  Log table, which the controller never reads, so the audit log is left out of the state.
  The file system is the set of tenant directories under \<open>baileys/sessions\<close> plus the
  files written under \<open>downloads\<close>; \<open>mkdirSync\<close>, \<open>rmSync\<close> with \<open>force\<close> and
  \<open>writeFileSync\<close> are taken to succeed on it.
\<close>

subsection \<open>JavaScript values\<close>

datatype jsval =
    JUndefined
  | JNull
  | JBool bool
  | JNum int
  | JStr string
  | JArr "jsval list"
  | JObj "(string \<times> jsval) list"

text \<open>The test \<open>if (v)\<close> and the operand of \<open>!v\<close>.\<close>

fun truthy :: "jsval \<Rightarrow> bool" where
  "truthy JUndefined = False"
| "truthy JNull = False"
| "truthy (JBool b) = b"
| "truthy (JNum n) = (n \<noteq> 0)"
| "truthy (JStr s) = (s \<noteq> [])"
| "truthy (JArr xs) = True"
| "truthy (JObj kvs) = True"

text \<open>Property access \<open>v.k\<close> on a value that is neither null nor undefined.\<close>

fun field :: "jsval \<Rightarrow> string \<Rightarrow> jsval" where
  "field (JObj kvs) k = (case map_of kvs k of None \<Rightarrow> JUndefined | Some v \<Rightarrow> v)"
| "field v k = JUndefined"

text \<open>
  Destructuring \<open>const { k } = v\<close> throws a TypeError when \<open>v\<close> is null or undefined;
  the handlers below test this before they read a field of \<open>req.body\<close>.
\<close>

fun is_nullish :: "jsval \<Rightarrow> bool" where
  "is_nullish JNull = True"
| "is_nullish JUndefined = True"
| "is_nullish v = False"

text \<open>\<open>a || b\<close>\<close>

definition js_or :: "jsval \<Rightarrow> jsval \<Rightarrow> jsval" where
  "js_or a b = (if truthy a then a else b)"

text \<open>\<open>s.includes(p)\<close> and \<open>s.replace(p, r)\<close> (first occurrence) on strings.\<close>

fun str_includes :: "string \<Rightarrow> string \<Rightarrow> bool" where
  "str_includes [] p = (p = [])"
| "str_includes (c # cs) p = (take (length p) (c # cs) = p \<or> str_includes cs p)"

fun replace_first :: "string \<Rightarrow> string \<Rightarrow> string \<Rightarrow> string" where
  "replace_first [] p r = (if p = [] then r else [])"
| "replace_first (c # cs) p r =
     (if take (length p) (c # cs) = p then r @ drop (length p) (c # cs)
      else c # replace_first cs p r)"

subsection \<open>State of the controller\<close>

type_synonym apiKey = string
type_synonym sock = nat
type_synonym sink = nat

text \<open>Every method the controller invokes on a Baileys socket.\<close>

datatype cap_call =
    Logout
  | SendMessage jsval jsval
  | SendReadReceipt jsval jsval "jsval list"
  | SendPresenceUpdate jsval jsval
  | UpdateBlockStatus jsval string
  | GroupCreate jsval jsval
  | GroupAdd jsval jsval
  | GroupRemove jsval "jsval list"
  | GroupMakeAdmin jsval "jsval list"
  | GroupDemoteAdmin jsval "jsval list"
  | FetchMessages jsval jsval
  | DownloadMediaMessage jsval string
  | UpdateProfileName jsval
  | UpdateProfilePicture string jsval

record user =
  uid :: nat
  userKey :: apiKey

record state =
  sessions :: "apiKey \<rightharpoonup> sock"
  reconnecting :: "apiKey \<rightharpoonup> bool"
  sseClients :: "apiKey \<rightharpoonup> sink list"
  sessionDirs :: "apiKey set"
  timers :: "(apiKey \<times> nat) list"
  created :: "apiKey list"
  readyState :: "sock \<Rightarrow> nat option"
  calls :: "(sock \<times> cap_call) list"
  written :: "(sink \<times> string) list"
  downloadsDir :: bool
  files :: "string \<rightharpoonup> jsval"

text \<open>
  \<open>created\<close> lists the tenants for which \<open>makeWASocket\<close> returned a socket: socket
  \<open>i\<close> belongs to tenant \<open>created ! i\<close>, whose apiKey its event handlers close over.
  \<open>timers\<close> are the pending \<open>setTimeout\<close> callbacks with their delay in milliseconds,
  \<open>calls\<close> the trace of socket method invocations, \<open>written\<close> the chunks the sinks
  accepted. A Set is a list without duplicates in insertion order.
\<close>

record env =
  cap :: "nat \<Rightarrow> sock \<Rightarrow> cap_call \<Rightarrow> string + jsval"
  loggedOut :: int
  write_fails :: "sink \<Rightarrow> string \<Rightarrow> bool"
  JSON_stringify :: "jsval \<Rightarrow> string"
  now_iso :: string
  now_ms :: string
  qrcode_toDataURL :: "string \<Rightarrow> string option"
  base64_of :: "string \<Rightarrow> string"
  axios_get_buffer :: "jsval \<Rightarrow> string + jsval"
  buffer_from_base64 :: "jsval \<Rightarrow> string + jsval"
  extname_lower :: "jsval \<Rightarrow> string + string"
  path_join :: "string \<Rightarrow> string \<Rightarrow> string"
  parseInt :: "jsval \<Rightarrow> jsval"
  sock_chats :: "sock \<Rightarrow> jsval"
  sock_contacts :: "sock \<Rightarrow> jsval"
  has_fetchMessages :: "sock \<Rightarrow> bool"
  cannot_destructure :: "string \<Rightarrow> jsval \<Rightarrow> string"
  writeFileSync_error :: "string \<Rightarrow> jsval \<Rightarrow> string option"

text \<open>
  \<open>cap n sk c\<close> is the outcome of invoking \<open>c\<close> on socket \<open>sk\<close> when \<open>n\<close> invocations
  were made before: \<open>Inl\<close> the message of the error it throws, \<open>Inr\<close> its result.
  \<open>loggedOut\<close> is Baileys' \<open>DisconnectReason.loggedOut\<close>.
  \<open>cannot_destructure p v\<close> is the message of the TypeError thrown when property \<open>p\<close>
  is destructured from the null or undefined \<open>v\<close>; \<open>writeFileSync_error path data\<close>
  is the message of the error \<open>fs.writeFileSync\<close> throws for that data (a value that is
  no buffer), none when it writes.
\<close>

definition invoke :: "env \<Rightarrow> sock \<Rightarrow> cap_call \<Rightarrow> state \<Rightarrow> (string + jsval) \<times> state" where
  "invoke e sk c s = (cap e (length (calls s)) sk c, s\<lparr>calls := calls s @ [(sk, c)]\<rparr>)"

subsection \<open>Helpers\<close>

definition nl :: string where
  "nl = [CHR 0x0A]"

text \<open>One pass of the loop body of \<open>sendSSE\<close>: both writes sit in one \<open>try\<close>.\<close>

definition sse_write :: "env \<Rightarrow> string \<Rightarrow> string \<Rightarrow> sink \<Rightarrow> (sink \<times> string) list" where
  "sse_write e c1 c2 r =
     (if write_fails e r c1 then []
      else if write_fails e r c2 then [(r, c1)]
      else [(r, c1), (r, c2)])"

definition sendSSE :: "env \<Rightarrow> apiKey \<Rightarrow> string \<Rightarrow> jsval \<Rightarrow> state \<Rightarrow> state" where
  "sendSSE e k eventName data s =
     (case sseClients s k of
        None \<Rightarrow> s
      | Some clients \<Rightarrow>
          (let payload = (case data of JStr str \<Rightarrow> str | _ \<Rightarrow> JSON_stringify e data)
           in s\<lparr>written := written s @
                  concat (map (sse_write e (''event: '' @ eventName @ nl)
                                           (''data: '' @ payload @ nl @ nl)) clients)\<rparr>))"

definition qrStringToDataUrl :: "env \<Rightarrow> string \<Rightarrow> string" where
  "qrStringToDataUrl e qrString =
     (case qrcode_toDataURL e qrString of
        Some dataUrl \<Rightarrow> dataUrl
      | None \<Rightarrow> ''data:text/plain;base64,'' @ base64_of e qrString)"

definition ensureSessionDir :: "apiKey \<Rightarrow> state \<Rightarrow> state" where
  "ensureSessionDir k s =
     (if k \<notin> sessionDirs s then s\<lparr>sessionDirs := insert k (sessionDirs s)\<rparr> else s)"

subsection \<open>Creating and retiring sockets\<close>

text \<open>
  \<open>createSocketForUser\<close> is an async function. It runs from its entry to its first
  \<open>await\<close> without interruption: the look-up in \<open>sessions\<close>, with the early return
  of a registered socket, and \<open>ensureSessionDir\<close>. It then awaits
  \<open>fetchLatestBaileysVersion\<close> and \<open>useMultiFileAuthState\<close>, and while it waits the
  event loop runs other handlers. When both have settled it calls \<open>makeWASocket\<close> and
  assigns the socket to \<open>sessions[apiKey]\<close> without looking at \<open>sessions\<close> again.
  The two halves are \<open>createSocketCheck\<close> and \<open>createSocketRegister\<close>;
  \<open>failure\<close> is the error of \<open>useMultiFileAuthState\<close> or \<open>makeWASocket\<close> when one
  of them throws (an error of \<open>fetchLatestBaileysVersion\<close> is caught and only changes
  the version passed on).
\<close>

definition createSocketCheck :: "user \<Rightarrow> state \<Rightarrow> sock option \<times> state" where
  "createSocketCheck u s =
     (let k = userKey u in
      case sessions s k of
        Some sk \<Rightarrow> (Some sk, s)
      | None \<Rightarrow> (None, ensureSessionDir k s))"

definition createSocketRegister :: "string option \<Rightarrow> user \<Rightarrow> state \<Rightarrow> (string + sock) \<times> state" where
  "createSocketRegister failure u s =
     (let k = userKey u in
      case failure of
        Some msg \<Rightarrow> (Inl msg, s)
      | None \<Rightarrow>
          (let sk = length (created s) in
           (Inr sk, s\<lparr>created := created s @ [k], sessions := (sessions s)(k \<mapsto> sk)\<rparr>)))"

text \<open>
  A call that no other handler interrupts: the second half follows the first at once.
  This is how the event loop of \<open>step\<close> below runs a connect request and a
  reconnection callback.
\<close>

definition createSocketForUser :: "string option \<Rightarrow> user \<Rightarrow> state \<Rightarrow> (string + sock) \<times> state" where
  "createSocketForUser failure u s =
     (case createSocketCheck u s of
        (Some sk, s1) \<Rightarrow> (Inr sk, s1)
      | (None, s1) \<Rightarrow> createSocketRegister failure u s1)"

datatype conn = Open | Close | Connecting

record update =
  connection :: "conn option"
  statusCode :: "int option"
  qr :: "string option"

text \<open>The two branches of the \<open>close\<close> case of the \<open>connection.update\<close> handler.\<close>

definition loggedOutCleanup :: "env \<Rightarrow> apiKey \<Rightarrow> state \<Rightarrow> state" where
  "loggedOutCleanup e k s =
     (let s1 = (case sessions s k of
                  Some sk \<Rightarrow> (snd (invoke e sk Logout s))\<lparr>sessions := (sessions s)(k := None)\<rparr>
                | None \<Rightarrow> s);
          s2 = s1\<lparr>sessionDirs := sessionDirs s1 - {k}\<rparr>
      in sendSSE e k ''logged_out'' (JObj []) s2)"

definition tryReconnect :: "apiKey \<Rightarrow> state \<Rightarrow> state" where
  "tryReconnect k s =
     (if reconnecting s k \<noteq> Some True
      then s\<lparr>reconnecting := (reconnecting s)(k \<mapsto> True), timers := timers s @ [(k, 3000)]\<rparr>
      else s)"

definition onClose :: "env \<Rightarrow> apiKey \<Rightarrow> int option \<Rightarrow> state \<Rightarrow> state" where
  "onClose e k code s =
     (if code = Some (loggedOut e) then loggedOutCleanup e k s else tryReconnect k s)"

definition connectionUpdate :: "env \<Rightarrow> apiKey \<Rightarrow> update \<Rightarrow> state \<Rightarrow> state" where
  "connectionUpdate e k u s =
     (let s1 = (case qr u of
                  Some q \<Rightarrow>
                    if q \<noteq> [] then
                      sendSSE e k ''qr''
                        (JObj [(''qrDataUrl'', JStr (qrStringToDataUrl e q)),
                               (''ts'', JStr (now_iso e))]) s
                    else s
                | None \<Rightarrow> s);
          s2 = (if connection u = Some Open
                then sendSSE e k ''qr_cleared'' (JObj [])
                       (sendSSE e k ''connected'' (JObj [(''ts'', JStr (now_iso e))]) s1)
                else s1)
      in if connection u = Some Close then onClose e k (statusCode u) s2 else s2)"

text \<open>
  The callback handed to \<open>setTimeout\<close>: \<open>found\<close> is the user \<open>User.findOne\<close> returned
  for the apiKey (none also when the lookup throws), \<open>failure\<close> as in
  \<open>createSocketForUser\<close>; the \<open>finally\<close> clears the guard on every path.
\<close>

definition reconnectCallback :: "apiKey \<Rightarrow> nat option \<Rightarrow> string option \<Rightarrow> state \<Rightarrow> state" where
  "reconnectCallback k found failure s =
     (let s1 = (case found of
                  Some i \<Rightarrow> snd (createSocketForUser failure \<lparr>uid = i, userKey = k\<rparr> s)
                | None \<Rightarrow> s)
      in s1\<lparr>reconnecting := (reconnecting s1)(k \<mapsto> False)\<rparr>)"

definition timerFires :: "apiKey \<Rightarrow> nat option \<Rightarrow> string option \<Rightarrow> state \<Rightarrow> state" where
  "timerFires k found failure s =
     (if (k, 3000) \<in> set (timers s)
      then reconnectCallback k found failure (s\<lparr>timers := remove1 (k, 3000) (timers s)\<rparr>)
      else s)"

subsection \<open>The event stream (GET /qr-stream)\<close>

definition set_add :: "'a \<Rightarrow> 'a list \<Rightarrow> 'a list" where
  "set_add x xs = (if x \<in> set xs then xs else xs @ [x])"

text \<open>
  \<open>qrSSE\<close>: \<open>key\<close> is the header \<open>x-api-key\<close> or else the query parameter
  \<open>apiKey\<close>, none when both are falsy (the handler then answers 401 and touches
  nothing). The sink joins the tenant's Set before the initial acknowledgement is written.
\<close>

definition qrSSE :: "env \<Rightarrow> apiKey option \<Rightarrow> sink \<Rightarrow> state \<Rightarrow> state" where
  "qrSSE e key r s =
     (case key of
        None \<Rightarrow> s
      | Some k \<Rightarrow>
          (let clients = (case sseClients s k of None \<Rightarrow> [] | Some cs \<Rightarrow> cs);
               s1 = s\<lparr>sseClients := (sseClients s)(k \<mapsto> set_add r clients)\<rparr>
           in s1\<lparr>written := written s1 @
                   sse_write e (''event: connected'' @ nl)
                     (''data: '' @ JSON_stringify e (JObj [(''ts'', JStr (now_iso e))]) @ nl @ nl) r\<rparr>))"

text \<open>The \<open>setInterval\<close> callback of a subscribed sink.\<close>

definition heartbeat :: "env \<Rightarrow> sink \<Rightarrow> state \<Rightarrow> state" where
  "heartbeat e r s =
     (if write_fails e r ('':'' @ nl @ nl) then s
      else s\<lparr>written := written s @ [(r, '':'' @ nl @ nl)]\<rparr>)"

text \<open>The \<open>close\<close> listener of the request behind a sink.\<close>

definition sseClose :: "apiKey \<Rightarrow> sink \<Rightarrow> state \<Rightarrow> state" where
  "sseClose k r s =
     (case sseClients s k of
        None \<Rightarrow> s
      | Some setClients \<Rightarrow>
          (let rest = removeAll r setClients in
           if rest = [] then s\<lparr>sseClients := (sseClients s)(k := None)\<rparr>
           else s\<lparr>sseClients := (sseClients s)(k \<mapsto> rest)\<rparr>))"

subsection \<open>Incoming messages\<close>

text \<open>\<open>a ?? b\<close>\<close>

definition nullish :: "jsval \<Rightarrow> jsval \<Rightarrow> jsval" where
  "nullish a b = (if a = JNull \<or> a = JUndefined then b else a)"

text \<open>
  The receipt loop of the \<open>messages.upsert\<close> handler. The flag tells that reading
  \<open>msg.key\<close> threw (a null element), which leaves the loop for the handler's outer
  \<open>catch\<close>; an error of \<open>sendReadReceipt\<close> itself is swallowed inside the loop.
\<close>

fun readReceipts :: "env \<Rightarrow> sock \<Rightarrow> jsval list \<Rightarrow> state \<Rightarrow> bool \<times> state" where
  "readReceipts e sk [] s = (False, s)"
| "readReceipts e sk (msg # rest) s =
     (if msg = JNull \<or> msg = JUndefined then (True, s)
      else
        (let key = field msg ''key'' in
         if \<not> truthy key \<or> field key ''remoteJid'' = JStr ''status@broadcast''
         then readReceipts e sk rest s
         else readReceipts e sk rest
                (snd (invoke e sk
                       (SendReadReceipt (field key ''remoteJid'')
                          (nullish (field key ''participant'') (field key ''remoteJid''))
                          [field key ''id'']) s))))"

definition messagesUpsert :: "env \<Rightarrow> sock \<Rightarrow> apiKey \<Rightarrow> jsval \<Rightarrow> state \<Rightarrow> state" where
  "messagesUpsert e sk k m s =
     (if m = JNull \<or> m = JUndefined then s
      else if field m ''type'' = JStr ''notify'' then
        (case js_or (field m ''messages'') (JArr []) of
           JArr msgs \<Rightarrow>
             (case readReceipts e sk msgs s of
                (True, s1) \<Rightarrow> s1
              | (False, s1) \<Rightarrow> sendSSE e k ''message'' (JObj [(''event'', m)]) s1)
         | JStr str \<Rightarrow> sendSSE e k ''message'' (JObj [(''event'', m)]) s
         | _ \<Rightarrow> s)
      else sendSSE e k ''message'' (JObj [(''event'', m)]) s)"

subsection \<open>REST endpoints\<close>

text \<open>
  A request as the handlers see it: \<open>req.user\<close> set by the apiKey middleware,
  \<open>req.body\<close> as \<open>express.json\<close> left it (the parsed value; for a request without
  a body the empty object or, in Express 5, undefined) and \<open>req.query\<close>, always an
  object.
\<close>

record request =
  req_user :: user
  body :: jsval
  query :: jsval

text \<open>\<open>res.status(n).json(v)\<close>; \<open>res.json(v)\<close> has status 200.\<close>

datatype response = Json nat jsval

definition err :: "string \<Rightarrow> jsval" where
  "err msg = JObj [(''error'', JStr msg)]"

definition notConnected :: response where
  "notConnected = Json 400 (err ''Session not connected'')"

definition success :: jsval where
  "success = JObj [(''success'', JBool True)]"

text \<open>
  The tail shared by the handlers that answer with the socket's result: a thrown error
  goes to the handler's \<open>catch\<close> and is answered with status 500 and its message.
\<close>

definition replyResult :: "(string + jsval) \<times> state \<Rightarrow> response \<times> state" where
  "replyResult p =
     (case p of
        (Inl msg, s1) \<Rightarrow> (Json 500 (err msg), s1)
      | (Inr result, s1) \<Rightarrow>
          (Json 200 (JObj [(''success'', JBool True), (''result'', result)]), s1))"

definition replySuccess :: "(string + jsval) \<times> state \<Rightarrow> response \<times> state" where
  "replySuccess p =
     (case p of
        (Inl msg, s1) \<Rightarrow> (Json 500 (err msg), s1)
      | (Inr result, s1) \<Rightarrow> (Json 200 success, s1))"

definition connect :: "string option \<Rightarrow> request \<Rightarrow> state \<Rightarrow> response \<times> state" where
  "connect failure req s =
     (case createSocketForUser failure (req_user req) s of
        (Inl msg, s1) \<Rightarrow> (Json 500 (err msg), s1)
      | (Inr sk, s1) \<Rightarrow>
          (Json 200 (JObj [(''success'', JBool True),
             (''message'', JStr ''Socket initiating. Subscribe to /wa/qr-stream (SSE) to receive QR & events.'')]),
           s1))"

definition status :: "request \<Rightarrow> state \<Rightarrow> response" where
  "status req s =
     (let connected = (case sessions s (userKey (req_user req)) of
                         None \<Rightarrow> False
                       | Some sk \<Rightarrow> readyState s sk = Some 1)
      in Json 200 (JObj [(''connected'', JBool connected)]))"

definition sendText :: "env \<Rightarrow> request \<Rightarrow> state \<Rightarrow> response \<times> state" where
  "sendText e req s =
     (case sessions s (userKey (req_user req)) of
        None \<Rightarrow> (notConnected, s)
      | Some sk \<Rightarrow>
          (if is_nullish (body req)
           then (Json 500 (err (cannot_destructure e ''to'' (body req))), s)
           else let to = field (body req) ''to''; text = field (body req) ''text'' in
           if \<not> truthy to \<or> \<not> truthy text then (Json 400 (err ''to & text required''), s)
           else replyResult (invoke e sk (SendMessage to (JObj [(''text'', text)])) s)))"

definition sendMedia :: "env \<Rightarrow> request \<Rightarrow> state \<Rightarrow> response \<times> state" where
  "sendMedia e req s =
     (case sessions s (userKey (req_user req)) of
        None \<Rightarrow> (notConnected, s)
      | Some sk \<Rightarrow>
          (if is_nullish (body req)
           then (Json 500 (err (cannot_destructure e ''to'' (body req))), s)
           else let to = field (body req) ''to'';
               url = field (body req) ''url'';
               base64 = field (body req) ''base64'';
               filename = (if field (body req) ''filename'' = JUndefined then JStr ''file''
                           else field (body req) ''filename'');
               caption = field (body req) ''caption''
           in
           if \<not> truthy to then (Json 400 (err ''to required''), s)
           else
             (case (if truthy url then Some (axios_get_buffer e url)
                    else if truthy base64 then Some (buffer_from_base64 e base64)
                    else None) of
                None \<Rightarrow> (Json 400 (err ''url or base64 required''), s)
              | Some (Inl msg) \<Rightarrow> (Json 500 (err msg), s)
              | Some (Inr buffer) \<Rightarrow>
                  (case extname_lower e filename of
                     Inl msg \<Rightarrow> (Json 500 (err msg), s)
                   | Inr ext \<Rightarrow>
                       (let message =
                          (if ext \<in> set [''.jpg'', ''.jpeg'', ''.png'', ''.webp'']
                           then JObj [(''image'', buffer), (''caption'', caption)]
                           else if ext \<in> set [''.mp4'', ''.mkv'', ''.mov'']
                           then JObj [(''video'', buffer), (''caption'', caption),
                                      (''mimetype'', JStr ''video/mp4'')]
                           else if ext \<in> set [''.mp3'', ''.wav'', ''.ogg'']
                           then JObj [(''audio'', buffer)]
                           else JObj [(''document'', buffer), (''fileName'', filename),
                                      (''mimetype'', JStr ''application/octet-stream''),
                                      (''caption'', caption)])
                        in replyResult (invoke e sk (SendMessage to message) s))))))"

definition sendButtons :: "env \<Rightarrow> request \<Rightarrow> state \<Rightarrow> response \<times> state" where
  "sendButtons e req s =
     (case sessions s (userKey (req_user req)) of
        None \<Rightarrow> (notConnected, s)
      | Some sk \<Rightarrow>
          (if is_nullish (body req)
           then (Json 500 (err (cannot_destructure e ''to'' (body req))), s)
           else let to = field (body req) ''to'';
               text = field (body req) ''text'';
               footer = (if field (body req) ''footer'' = JUndefined then JStr []
                         else field (body req) ''footer'');
               buttons = field (body req) ''buttons''
           in
           if \<not> truthy to \<or> \<not> truthy text \<or> \<not> truthy buttons
           then (Json 400 (err ''to, text, buttons required''), s)
           else replyResult
                  (invoke e sk
                     (SendMessage to
                        (JObj [(''text'', text), (''footer'', footer), (''buttons'', buttons)])) s)))"

definition sendTemplate :: "env \<Rightarrow> request \<Rightarrow> state \<Rightarrow> response \<times> state" where
  "sendTemplate e req s =
     (case sessions s (userKey (req_user req)) of
        None \<Rightarrow> (notConnected, s)
      | Some sk \<Rightarrow>
          (if is_nullish (body req)
           then (Json 500 (err (cannot_destructure e ''to'' (body req))), s)
           else let to = field (body req) ''to'';
               text = field (body req) ''text'';
               footer = (if field (body req) ''footer'' = JUndefined then JStr []
                         else field (body req) ''footer'');
               hydratedButtons = field (body req) ''hydratedButtons''
           in
           if \<not> truthy to \<or> \<not> truthy text then (Json 400 (err ''to & text required''), s)
           else replyResult
                  (invoke e sk
                     (SendMessage to
                        (JObj [(''text'', text), (''footer'', footer),
                               (''templateButtons'', hydratedButtons)])) s)))"

text \<open>
  The loop of \<open>broadcast\<close>: one awaited \<open>sendMessage\<close> per element, in order; a thrown
  error leaves the loop and the collected results behind.
\<close>

fun broadcastLoop ::
  "env \<Rightarrow> sock \<Rightarrow> jsval \<Rightarrow> jsval list \<Rightarrow> jsval list \<Rightarrow> state \<Rightarrow> (string + jsval list) \<times> state" where
  "broadcastLoop e sk message [] results s = (Inr results, s)"
| "broadcastLoop e sk message (to # rest) results s =
     (case invoke e sk (SendMessage to (JObj [(''text'', message)])) s of
        (Inl msg, s1) \<Rightarrow> (Inl msg, s1)
      | (Inr r, s1) \<Rightarrow>
          broadcastLoop e sk message rest (results @ [JObj [(''to'', to), (''r'', r)]]) s1)"

definition broadcast :: "env \<Rightarrow> request \<Rightarrow> state \<Rightarrow> response \<times> state" where
  "broadcast e req s =
     (case sessions s (userKey (req_user req)) of
        None \<Rightarrow> (notConnected, s)
      | Some sk \<Rightarrow>
          (if is_nullish (body req)
           then (Json 500 (err (cannot_destructure e ''numbers'' (body req))), s)
           else let numbers = field (body req) ''numbers''; message = field (body req) ''message'' in
           case numbers of
             JArr ns \<Rightarrow>
               if \<not> truthy message
               then (Json 400 (err ''numbers array & message required''), s)
               else
                 (case broadcastLoop e sk message ns [] s of
                    (Inl msg, s1) \<Rightarrow> (Json 500 (err msg), s1)
                  | (Inr results, s1) \<Rightarrow>
                      (Json 200 (JObj [(''success'', JBool True), (''results'', JArr results)]),
                       s1))
           | _ \<Rightarrow> (Json 400 (err ''numbers array & message required''), s)))"

definition getChats :: "env \<Rightarrow> request \<Rightarrow> state \<Rightarrow> response \<times> state" where
  "getChats e req s =
     (case sessions s (userKey (req_user req)) of
        None \<Rightarrow> (notConnected, s)
      | Some sk \<Rightarrow> (Json 200 (JObj [(''chats'', js_or (sock_chats e sk) (JArr []))]), s))"

definition getMessages :: "env \<Rightarrow> request \<Rightarrow> state \<Rightarrow> response \<times> state" where
  "getMessages e req s =
     (case sessions s (userKey (req_user req)) of
        None \<Rightarrow> (notConnected, s)
      | Some sk \<Rightarrow>
          (let jid = field (query req) ''jid'';
               count = parseInt e (js_or (field (query req) ''count'') (JStr ''20''))
           in
           if \<not> truthy jid then (Json 400 (err ''jid required''), s)
           else if has_fetchMessages e sk then
             (case invoke e sk (FetchMessages jid count) s of
                (Inl msg, s1) \<Rightarrow> (Json 500 (err msg), s1)
              | (Inr msgs, s1) \<Rightarrow> (Json 200 (JObj [(''messages'', msgs)]), s1))
           else (Json 200 (JObj [(''messages'', JArr [])]), s)))"

definition markRead :: "env \<Rightarrow> request \<Rightarrow> state \<Rightarrow> response \<times> state" where
  "markRead e req s =
     (case sessions s (userKey (req_user req)) of
        None \<Rightarrow> (notConnected, s)
      | Some sk \<Rightarrow>
          (if is_nullish (body req)
           then (Json 500 (err (cannot_destructure e ''jid'' (body req))), s)
           else let jid = field (body req) ''jid''; messageId = field (body req) ''messageId'' in
           if \<not> truthy jid \<or> \<not> truthy messageId
           then (Json 400 (err ''jid & messageId required''), s)
           else replySuccess (invoke e sk (SendReadReceipt jid jid [messageId]) s)))"

definition presence :: "env \<Rightarrow> request \<Rightarrow> state \<Rightarrow> response \<times> state" where
  "presence e req s =
     (case sessions s (userKey (req_user req)) of
        None \<Rightarrow> (notConnected, s)
      | Some sk \<Rightarrow>
          (if is_nullish (body req)
           then (Json 500 (err (cannot_destructure e ''to'' (body req))), s)
           else let to = field (body req) ''to''; p = field (body req) ''presence'' in
           if \<not> truthy to \<or> \<not> truthy p then (Json 400 (err ''to & presence required''), s)
           else replySuccess (invoke e sk (SendPresenceUpdate p to) s)))"

definition block :: "env \<Rightarrow> request \<Rightarrow> state \<Rightarrow> response \<times> state" where
  "block e req s =
     (if is_nullish (body req)
      then (Json 500 (err (cannot_destructure e ''jid'' (body req))), s)
      else let jid = field (body req) ''jid'' in
      case sessions s (userKey (req_user req)) of
        None \<Rightarrow> (notConnected, s)
      | Some sk \<Rightarrow>
          if \<not> truthy jid then (Json 400 (err ''jid required''), s)
          else replySuccess (invoke e sk (UpdateBlockStatus jid ''block'') s))"

definition unblock :: "env \<Rightarrow> request \<Rightarrow> state \<Rightarrow> response \<times> state" where
  "unblock e req s =
     (if is_nullish (body req)
      then (Json 500 (err (cannot_destructure e ''jid'' (body req))), s)
      else let jid = field (body req) ''jid'' in
      case sessions s (userKey (req_user req)) of
        None \<Rightarrow> (notConnected, s)
      | Some sk \<Rightarrow>
          if \<not> truthy jid then (Json 400 (err ''jid required''), s)
          else replySuccess (invoke e sk (UpdateBlockStatus jid ''unblock'') s))"

definition createGroup :: "env \<Rightarrow> request \<Rightarrow> state \<Rightarrow> response \<times> state" where
  "createGroup e req s =
     (if is_nullish (body req)
      then (Json 500 (err (cannot_destructure e ''subject'' (body req))), s)
      else let subject = field (body req) ''subject''; participants = field (body req) ''participants'' in
      case sessions s (userKey (req_user req)) of
        None \<Rightarrow> (notConnected, s)
      | Some sk \<Rightarrow>
          if \<not> truthy subject \<or> \<not> truthy participants
          then (Json 400 (err ''subject & participants required''), s)
          else replyResult (invoke e sk (GroupCreate subject participants) s))"

definition groupAdd :: "env \<Rightarrow> request \<Rightarrow> state \<Rightarrow> response \<times> state" where
  "groupAdd e req s =
     (if is_nullish (body req)
      then (Json 500 (err (cannot_destructure e ''groupId'' (body req))), s)
      else let groupId = field (body req) ''groupId''; participants = field (body req) ''participants'' in
      case sessions s (userKey (req_user req)) of
        None \<Rightarrow> (notConnected, s)
      | Some sk \<Rightarrow>
          if \<not> truthy groupId \<or> \<not> truthy participants
          then (Json 400 (err ''groupId & participants required''), s)
          else replyResult (invoke e sk (GroupAdd groupId participants) s))"

definition groupRemove :: "env \<Rightarrow> request \<Rightarrow> state \<Rightarrow> response \<times> state" where
  "groupRemove e req s =
     (if is_nullish (body req)
      then (Json 500 (err (cannot_destructure e ''groupId'' (body req))), s)
      else let groupId = field (body req) ''groupId''; participant = field (body req) ''participant'' in
      case sessions s (userKey (req_user req)) of
        None \<Rightarrow> (notConnected, s)
      | Some sk \<Rightarrow>
          if \<not> truthy groupId \<or> \<not> truthy participant
          then (Json 400 (err ''groupId & participant required''), s)
          else replyResult (invoke e sk (GroupRemove groupId [participant]) s))"

definition groupPromote :: "env \<Rightarrow> request \<Rightarrow> state \<Rightarrow> response \<times> state" where
  "groupPromote e req s =
     (if is_nullish (body req)
      then (Json 500 (err (cannot_destructure e ''groupId'' (body req))), s)
      else let groupId = field (body req) ''groupId''; participant = field (body req) ''participant'' in
      case sessions s (userKey (req_user req)) of
        None \<Rightarrow> (notConnected, s)
      | Some sk \<Rightarrow>
          if \<not> truthy groupId \<or> \<not> truthy participant
          then (Json 400 (err ''groupId & participant required''), s)
          else replyResult (invoke e sk (GroupMakeAdmin groupId [participant]) s))"

definition groupDemote :: "env \<Rightarrow> request \<Rightarrow> state \<Rightarrow> response \<times> state" where
  "groupDemote e req s =
     (if is_nullish (body req)
      then (Json 500 (err (cannot_destructure e ''groupId'' (body req))), s)
      else let groupId = field (body req) ''groupId''; participant = field (body req) ''participant'' in
      case sessions s (userKey (req_user req)) of
        None \<Rightarrow> (notConnected, s)
      | Some sk \<Rightarrow>
          if \<not> truthy groupId \<or> \<not> truthy participant
          then (Json 400 (err ''groupId & participant required''), s)
          else replyResult (invoke e sk (GroupDemoteAdmin groupId [participant]) s))"

definition getContacts :: "env \<Rightarrow> request \<Rightarrow> state \<Rightarrow> response \<times> state" where
  "getContacts e req s =
     (case sessions s (userKey (req_user req)) of
        None \<Rightarrow> (notConnected, s)
      | Some sk \<Rightarrow> (Json 200 (JObj [(''contacts'', js_or (sock_contacts e sk) (JObj []))]), s))"

text \<open>\<open>Object.keys\<close> of an object; any other value has no key that contains a letter.\<close>

fun object_keys :: "jsval \<Rightarrow> string list" where
  "object_keys (JObj kvs) = map fst kvs"
| "object_keys v = []"

definition downloadMedia :: "env \<Rightarrow> request \<Rightarrow> state \<Rightarrow> response \<times> state" where
  "downloadMedia e req s =
     (case sessions s (userKey (req_user req)) of
        None \<Rightarrow> (notConnected, s)
      | Some sk \<Rightarrow>
          (if is_nullish (body req)
           then (Json 500 (err (cannot_destructure e ''message'' (body req))), s)
           else let message = field (body req) ''message'' in
           if \<not> truthy message then (Json 400 (err ''message required''), s)
           else
             (case invoke e sk (DownloadMediaMessage message ''buffer'') s of
                (Inl msg, s1) \<Rightarrow> (Json 500 (err msg), s1)
              | (Inr mediaBuffer, s1) \<Rightarrow>
                  (let mediaType =
                         (case find (\<lambda>k. str_includes k ''Message'')
                                 (object_keys (js_or (field message ''message'') (JObj []))) of
                            Some k \<Rightarrow> k
                          | None \<Rightarrow> ''media'');
                       fileName = now_ms e @ ''_'' @ replace_first mediaType ''Message'' [];
                       filePath = path_join e ''downloads'' fileName
                   in case writeFileSync_error e filePath mediaBuffer of
                        Some msg \<Rightarrow> (Json 500 (err msg), s1\<lparr>downloadsDir := True\<rparr>)
                      | None \<Rightarrow>
                          (Json 200 (JObj [(''success'', JBool True),
                                           (''filePath'', JStr filePath)]),
                           s1\<lparr>downloadsDir := True,
                              files := (files s1)(filePath \<mapsto> mediaBuffer)\<rparr>)))))"

definition updateProfileName :: "env \<Rightarrow> request \<Rightarrow> state \<Rightarrow> response \<times> state" where
  "updateProfileName e req s =
     (case sessions s (userKey (req_user req)) of
        None \<Rightarrow> (notConnected, s)
      | Some sk \<Rightarrow>
          (if is_nullish (body req)
           then (Json 500 (err (cannot_destructure e ''name'' (body req))), s)
           else let name = field (body req) ''name'' in
           if \<not> truthy name then (Json 400 (err ''name required''), s)
           else
             (case invoke e sk (UpdateProfileName name) s of
                (Inl msg, s1) \<Rightarrow>
                  (Json 200 (JObj [(''success'', JBool True), (''result'', JNull)]), s1)
              | (Inr result, s1) \<Rightarrow>
                  (Json 200 (JObj [(''success'', JBool True), (''result'', result)]), s1))))"

definition updateProfilePicture :: "env \<Rightarrow> request \<Rightarrow> state \<Rightarrow> response \<times> state" where
  "updateProfilePicture e req s =
     (case sessions s (userKey (req_user req)) of
        None \<Rightarrow> (notConnected, s)
      | Some sk \<Rightarrow>
          (if is_nullish (body req)
           then (Json 500 (err (cannot_destructure e ''base64'' (body req))), s)
           else let base64 = field (body req) ''base64'' in
           if \<not> truthy base64 then (Json 400 (err ''base64 required''), s)
           else
             (case buffer_from_base64 e base64 of
                Inl msg \<Rightarrow> (Json 500 (err msg), s)
              | Inr buffer \<Rightarrow>
                  (Json 200 success,
                   snd (invoke e sk
                          (UpdateProfilePicture (userKey (req_user req) @ ''@s.whatsapp.net'')
                             buffer) s)))))"

text \<open>
  The file holds a second revision of the controller, with the handlers registered on the
  router directly. Its command handlers are the ones above except for
  \<open>/profile-update\<close> and \<open>/profile-picture\<close>, which validate the body before they
  look the session up; \<open>/profile-update\<close> also answers without the result.
\<close>

definition profileUpdate2 :: "env \<Rightarrow> request \<Rightarrow> state \<Rightarrow> response \<times> state" where
  "profileUpdate2 e req s =
     (if is_nullish (body req)
      then (Json 500 (err (cannot_destructure e ''name'' (body req))), s)
      else let name = field (body req) ''name'' in
        if \<not> truthy name then (Json 400 (err ''name required''), s)
        else
          (case sessions s (userKey (req_user req)) of
             None \<Rightarrow> (notConnected, s)
           | Some sk \<Rightarrow> (Json 200 success, snd (invoke e sk (UpdateProfileName name) s))))"

definition profilePicture2 :: "env \<Rightarrow> request \<Rightarrow> state \<Rightarrow> response \<times> state" where
  "profilePicture2 e req s =
     (if is_nullish (body req)
      then (Json 500 (err (cannot_destructure e ''base64'' (body req))), s)
      else let base64 = field (body req) ''base64'' in
        if \<not> truthy base64 then (Json 400 (err ''base64 required''), s)
        else
          (case sessions s (userKey (req_user req)) of
             None \<Rightarrow> (notConnected, s)
           | Some sk \<Rightarrow>
               (case buffer_from_base64 e base64 of
                  Inl msg \<Rightarrow> (Json 500 (err msg), s)
                | Inr buffer \<Rightarrow>
                    (Json 200 success,
                     snd (invoke e sk
                            (UpdateProfilePicture (userKey (req_user req) @ ''@s.whatsapp.net'')
                               buffer) s)))))"

definition logout :: "env \<Rightarrow> request \<Rightarrow> state \<Rightarrow> response \<times> state" where
  "logout e req s =
     (let k = userKey (req_user req);
          s1 = (case sessions s k of
                  Some sk \<Rightarrow> (snd (invoke e sk Logout s))\<lparr>sessions := (sessions s)(k := None)\<rparr>
                | None \<Rightarrow> s);
          s2 = s1\<lparr>sessionDirs := sessionDirs s1 - {k}\<rparr>;
          s3 = sendSSE e k ''logged_out'' (JObj []) s2
      in (Json 200 success, s3))"

subsection \<open>The router and the event loop\<close>

text \<open>
  The routes that hand a request to the socket of the caller's session; the last two are
  the second revision's \<open>/profile-update\<close> and \<open>/profile-picture\<close>.
\<close>

datatype command =
    SendText | SendMedia | SendButtons | SendTemplate | Broadcast | GetChats | GetMessages
  | MarkRead | Presence | Block | Unblock | CreateGroup | GroupAddC | GroupRemoveC
  | GroupPromote | GroupDemote | GetContacts | DownloadMedia | UpdateProfileNameC
  | UpdateProfilePictureC | ProfileUpdate2 | ProfilePicture2

fun dispatch :: "env \<Rightarrow> command \<Rightarrow> request \<Rightarrow> state \<Rightarrow> response \<times> state" where
  "dispatch e SendText = sendText e"
| "dispatch e SendMedia = sendMedia e"
| "dispatch e SendButtons = sendButtons e"
| "dispatch e SendTemplate = sendTemplate e"
| "dispatch e Broadcast = broadcast e"
| "dispatch e GetChats = getChats e"
| "dispatch e GetMessages = getMessages e"
| "dispatch e MarkRead = markRead e"
| "dispatch e Presence = presence e"
| "dispatch e Block = block e"
| "dispatch e Unblock = unblock e"
| "dispatch e CreateGroup = createGroup e"
| "dispatch e GroupAddC = groupAdd e"
| "dispatch e GroupRemoveC = groupRemove e"
| "dispatch e GroupPromote = groupPromote e"
| "dispatch e GroupDemote = groupDemote e"
| "dispatch e GetContacts = getContacts e"
| "dispatch e DownloadMedia = downloadMedia e"
| "dispatch e UpdateProfileNameC = updateProfileName e"
| "dispatch e UpdateProfilePictureC = updateProfilePicture e"
| "dispatch e ProfileUpdate2 = profileUpdate2 e"
| "dispatch e ProfilePicture2 = profilePicture2 e"

text \<open>
  Everything that can happen to the controller: a request on one of its routes, an event
  of a socket it created (handled under the apiKey the socket was created for), a
  reconnection timer firing, a sink closing or being pinged, and the network changing a
  socket's \<open>ws.readyState\<close>.
\<close>

datatype event =
    EvConnect "string option" request
  | EvLogout request
  | EvCommand command request
  | EvConnectionUpdate sock update
  | EvMessagesUpsert sock jsval
  | EvTimer apiKey "nat option" "string option"
  | EvSubscribe "apiKey option" sink
  | EvHeartbeat sink
  | EvSseClose apiKey sink
  | EvReadyState sock "nat option"

fun step :: "env \<Rightarrow> event \<Rightarrow> state \<Rightarrow> state" where
  "step e (EvConnect failure req) s = snd (connect failure req s)"
| "step e (EvLogout req) s = snd (logout e req s)"
| "step e (EvCommand c req) s = snd (dispatch e c req s)"
| "step e (EvConnectionUpdate sk u) s =
     (if sk < length (created s) then connectionUpdate e (created s ! sk) u s else s)"
| "step e (EvMessagesUpsert sk m) s =
     (if sk < length (created s) then messagesUpsert e sk (created s ! sk) m s else s)"
| "step e (EvTimer k found failure) s = timerFires k found failure s"
| "step e (EvSubscribe key r) s = qrSSE e key r s"
| "step e (EvHeartbeat r) s = heartbeat e r s"
| "step e (EvSseClose k r) s = sseClose k r s"
| "step e (EvReadyState sk v) s = s\<lparr>readyState := (readyState s)(sk := v)\<rparr>"

text \<open>A run of the process: each event comes with the environment's answers at that time.\<close>

fun run :: "(env \<times> event) list \<Rightarrow> state \<Rightarrow> state" where
  "run [] s = s"
| "run ((e, ev) # rest) s = run rest (step e ev s)"

text \<open>The state at process start: empty tables, whatever directories an earlier run left.\<close>

definition initial :: "apiKey set \<Rightarrow> state" where
  "initial ds =
     \<lparr>sessions = Map.empty, reconnecting = Map.empty, sseClients = Map.empty,
      sessionDirs = ds, timers = [], created = [], readyState = (\<lambda>sk. None),
      calls = [], written = [], downloadsDir = False, files = Map.empty\<rparr>"

subsection \<open>A sample tenant and environment\<close>

text \<open>
  An environment in which every socket call returns null and every sink accepts every
  chunk, a variant whose second socket call times out, and one whose sink 0 is broken.
\<close>

definition quiet_env :: env where
  "quiet_env =
     \<lparr>cap = (\<lambda>n sk c. Inr JNull), loggedOut = 401, write_fails = (\<lambda>r c. False),
      JSON_stringify = (\<lambda>v. ''{}''), now_iso = ''2024-01-01T00:00:00.000Z'', now_ms = ''0'',
      qrcode_toDataURL = (\<lambda>q. None), base64_of = (\<lambda>q. q),
      axios_get_buffer = (\<lambda>u. Inr JNull), buffer_from_base64 = (\<lambda>b. Inr JNull),
      extname_lower = (\<lambda>f. Inr []), path_join = (\<lambda>a b. a @ ''/'' @ b),
      parseInt = (\<lambda>v. v), sock_chats = (\<lambda>sk. JUndefined),
      sock_contacts = (\<lambda>sk. JUndefined), has_fetchMessages = (\<lambda>sk. False),
      cannot_destructure = (\<lambda>p v. ''Cannot destructure property '' @ p),
      writeFileSync_error = (\<lambda>path data. None)\<rparr>"

definition flaky_env :: env where
  "flaky_env = quiet_env\<lparr>cap := (\<lambda>n sk c. if n = 1 then Inl ''Timed Out'' else Inr JNull)\<rparr>"

definition deaf_env :: env where
  "deaf_env = quiet_env\<lparr>write_fails := (\<lambda>r c. r = 0)\<rparr>"

definition alice :: user where
  "alice = \<lparr>uid = 1, userKey = ''a1b2''\<rparr>"

definition post :: "jsval \<Rightarrow> request" where
  "post b = \<lparr>req_user = alice, body = b, query = JObj []\<rparr>"

text \<open>The state after a first \<open>POST /connect\<close> of the sample tenant: socket 0, not open yet.\<close>

definition linking :: state where
  "linking = snd (connect None (post (JObj [])) (initial {}))"

definition three :: request where
  "three = post (JObj [(''numbers'', JArr [JStr ''x'', JStr ''y'', JStr ''z'']),
                       (''message'', JStr ''hi'')])"

subsection \<open>Notions used in the properties\<close>

text \<open>
  \<open>only_calls s s'\<close>: going from \<open>s\<close> to \<open>s'\<close> left the three tables, the tenant
  directories, the timers, the sockets and the sinks' output alone and at most extended
  the trace of socket calls.
\<close>

definition only_calls :: "state \<Rightarrow> state \<Rightarrow> bool" where
  "only_calls s s' \<longleftrightarrow>
     sessions s' = sessions s \<and> reconnecting s' = reconnecting s \<and>
     sseClients s' = sseClients s \<and> sessionDirs s' = sessionDirs s \<and>
     timers s' = timers s \<and> created s' = created s \<and> readyState s' = readyState s \<and>
     written s' = written s \<and> set (calls s) \<subseteq> set (calls s')"

text \<open>Two sinks subscribed to the sample tenant, and a well-formed text request.\<close>

definition watched :: state where
  "watched = qrSSE quiet_env (Some ''a1b2'') 1 (qrSSE quiet_env (Some ''a1b2'') 0 (initial {}))"

definition hello :: request where
  "hello = post (JObj [(''to'', JStr ''62@s.whatsapp.net''), (''text'', JStr ''hi'')])"

text \<open>
  \<open>same_lifecycle s s'\<close>: the registry, the sockets created, the tenant directories, the
  timers and the guards are the same, and no socket call was taken back.
\<close>

definition same_lifecycle :: "state \<Rightarrow> state \<Rightarrow> bool" where
  "same_lifecycle s s' \<longleftrightarrow>
     sessions s' = sessions s \<and> created s' = created s \<and> sessionDirs s' = sessionDirs s \<and>
     timers s' = timers s \<and> reconnecting s' = reconnecting s \<and>
     set (calls s) \<subseteq> set (calls s')"

text \<open>
  No two pending timers belong to one tenant, each has the delay 3000 and the guard of
  its tenant is set.
\<close>

definition timers_guarded :: "state \<Rightarrow> bool" where
  "timers_guarded s \<longleftrightarrow>
     distinct (map fst (timers s)) \<and>
     (\<forall>t \<in> set (timers s). snd t = 3000 \<and> reconnecting s (fst t) = Some True)"

text \<open>
  The two events that retire tenant \<open>k\<close>: its logout request, and a close event with the
  logged-out code from a socket created for \<open>k\<close>.
\<close>

definition retires :: "env \<Rightarrow> state \<Rightarrow> event \<Rightarrow> apiKey \<Rightarrow> bool" where
  "retires e s ev k \<longleftrightarrow>
     (case ev of
        EvLogout req \<Rightarrow> userKey (req_user req) = k
      | EvConnectionUpdate sk u \<Rightarrow>
          sk < length (created s) \<and> created s ! sk = k \<and>
          connection u = Some Close \<and> statusCode u = Some (loggedOut e)
      | _ \<Rightarrow> False)"

definition closing :: "int option \<Rightarrow> update" where
  "closing code = \<lparr>connection = Some Close, statusCode = code, qr = None\<rparr>"

text \<open>Every tenant's Set of sinks holds each sink once.\<close>

definition clients_distinct :: "state \<Rightarrow> bool" where
  "clients_distinct s \<longleftrightarrow> (\<forall>k cs. sseClients s k = Some cs \<longrightarrow> distinct cs)"

text \<open>
  Two connect requests of the sample tenant overlap: both run the first half of
  \<open>createSocketForUser\<close> before either runs the second.
\<close>

definition overlapped :: state where
  "overlapped =
     snd (createSocketRegister None alice
       (snd (createSocketRegister None alice
         (snd (createSocketCheck alice
           (snd (createSocketCheck alice (initial {}))))))))"

text \<open>The sample tenant is linking and sink 0 is subscribed to its events.\<close>

definition listened :: state where
  "listened = qrSSE quiet_env (Some ''a1b2'') 0 linking"

text \<open>The commands whose handlers destructure \<open>req.body\<close> before they test the session.\<close>

definition body_first :: "command list" where
  "body_first =
     [Block, Unblock, CreateGroup, GroupAddC, GroupRemoveC, GroupPromote, GroupDemote,
      ProfileUpdate2, ProfilePicture2]"

section \<open>Properties\<close>

subsection \<open>An uninterrupted createSocketForUser\<close>

lemma createSocketForUser_unfold:
  "createSocketForUser failure u s =
     (let k = userKey u in
      case sessions s k of
        Some sk \<Rightarrow> (Inr sk, s)
      | None \<Rightarrow>
          (let s1 = ensureSessionDir k s in
           case failure of
             Some msg \<Rightarrow> (Inl msg, s1)
           | None \<Rightarrow>
               (let sk = length (created s1) in
                (Inr sk, s1\<lparr>created := created s1 @ [k],
                             sessions := (sessions s1)(k \<mapsto> sk)\<rparr>))))"
  by (simp add: createSocketForUser_def createSocketCheck_def createSocketRegister_def Let_def
        split: option.splits)

lemma field_defined_not_nullish: "field v k \<noteq> JUndefined \<Longrightarrow> \<not> is_nullish v"
  by (cases v) simp_all


subsection \<open>The sample state\<close>

lemma linking_simps:
  "sessions linking = [''a1b2'' \<mapsto> 0]" "calls linking = []" "readyState linking = (\<lambda>sk. None)"
  "created linking = [''a1b2'']" "sessionDirs linking = {''a1b2''}" "timers linking = []"
  "reconnecting linking = Map.empty" "sseClients linking = Map.empty" "written linking = []"
  by (simp_all add: linking_def connect_def createSocketForUser_unfold post_def alice_def
        initial_def ensureSessionDir_def Let_def)

lemma listened_simps:
  "sessions listened = [''a1b2'' \<mapsto> 0]" "sseClients listened = [''a1b2'' \<mapsto> [0]]"
  "sessionDirs listened = {''a1b2''}" "calls listened = []"
  by (simp_all add: listened_def qrSSE_def set_add_def linking_simps Let_def)

lemma watched_simps:
  "sseClients watched = [''a1b2'' \<mapsto> [0, 1]]" "sessions watched = Map.empty"
  "sessionDirs watched = {}"
  by (simp_all add: watched_def qrSSE_def set_add_def initial_def Let_def)

subsection \<open>What a handler leaves alone\<close>

lemma only_calls_refl: "only_calls s s"
  by (simp add: only_calls_def)

lemma only_calls_trans: "only_calls s s1 \<Longrightarrow> only_calls s1 s2 \<Longrightarrow> only_calls s s2"
  by (auto simp add: only_calls_def)

lemma only_calls_invoke: "only_calls s (snd (invoke e sk c s))"
  by (auto simp add: only_calls_def invoke_def)

lemma only_calls_replyResult: "only_calls s (snd p) \<Longrightarrow> only_calls s (snd (replyResult p))"
  by (cases p) (auto simp add: replyResult_def split: sum.splits)

lemma only_calls_replySuccess: "only_calls s (snd p) \<Longrightarrow> only_calls s (snd (replySuccess p))"
  by (cases p) (auto simp add: replySuccess_def split: sum.splits)

lemmas only_calls_reply =
  only_calls_refl only_calls_replyResult [OF only_calls_invoke]
  only_calls_replySuccess [OF only_calls_invoke]

lemma only_calls_broadcastLoop: "only_calls s (snd (broadcastLoop e sk m ns acc s))"
proof (induction ns arbitrary: acc s)
  case Nil
  show ?case by (simp add: only_calls_refl)
next
  case (Cons to rest)
  let ?c = "SendMessage to (JObj [(''text'', m)])"
  have one: "only_calls s (snd (invoke e sk ?c s))"
    by (rule only_calls_invoke)
  show ?case
  proof (cases "cap e (length (calls s)) sk ?c")
    case (Inl msg)
    then show ?thesis using one by (simp add: invoke_def)
  next
    case (Inr r)
    have "only_calls (snd (invoke e sk ?c s))
            (snd (broadcastLoop e sk m rest (acc @ [JObj [(''to'', to), (''r'', r)]])
                    (snd (invoke e sk ?c s))))"
      by (rule Cons.IH)
    with one have "only_calls s
            (snd (broadcastLoop e sk m rest (acc @ [JObj [(''to'', to), (''r'', r)]])
                    (snd (invoke e sk ?c s))))"
      by (rule only_calls_trans)
    then show ?thesis using Inr by (simp add: invoke_def)
  qed
qed

lemma only_calls_sendText: "only_calls s (snd (sendText e req s))"
  by (simp add: sendText_def Let_def only_calls_reply split: option.splits)

lemma only_calls_sendMedia: "only_calls s (snd (sendMedia e req s))"
  by (simp add: sendMedia_def Let_def only_calls_reply split: option.splits sum.splits)

lemma only_calls_sendButtons: "only_calls s (snd (sendButtons e req s))"
  by (simp add: sendButtons_def Let_def only_calls_reply split: option.splits)

lemma only_calls_sendTemplate: "only_calls s (snd (sendTemplate e req s))"
  by (simp add: sendTemplate_def Let_def only_calls_reply split: option.splits)

lemma only_calls_broadcast: "only_calls s (snd (broadcast e req s))"
proof (cases "sessions s (userKey (req_user req))")
  case None
  then show ?thesis by (simp add: broadcast_def only_calls_refl)
next
  case (Some sk)
  show ?thesis
  proof (cases "field (body req) ''numbers''")
    case (JArr ns)
    obtain res s1 where loop: "broadcastLoop e sk (field (body req) ''message'') ns [] s = (res, s1)"
      by (cases "broadcastLoop e sk (field (body req) ''message'') ns [] s")
    have "only_calls s s1"
      using only_calls_broadcastLoop [where s = s and e = e and sk = sk and ns = ns
              and m = "field (body req) ''message''" and acc = "[]"] loop by simp
    with Some JArr loop show ?thesis
      by (simp add: broadcast_def Let_def only_calls_refl split: sum.splits)
  qed (use Some in \<open>simp_all add: broadcast_def only_calls_refl\<close>)
qed

lemma only_calls_getChats: "only_calls s (snd (getChats e req s))"
  by (simp add: getChats_def only_calls_refl split: option.splits)

lemma only_calls_getContacts: "only_calls s (snd (getContacts e req s))"
  by (simp add: getContacts_def only_calls_refl split: option.splits)

lemma only_calls_getMessages: "only_calls s (snd (getMessages e req s))"
  by (auto simp add: getMessages_def Let_def invoke_def only_calls_def
        split: option.splits sum.splits)

lemma only_calls_markRead: "only_calls s (snd (markRead e req s))"
  by (simp add: markRead_def Let_def only_calls_reply split: option.splits)

lemma only_calls_presence: "only_calls s (snd (presence e req s))"
  by (simp add: presence_def Let_def only_calls_reply split: option.splits)

lemma only_calls_block: "only_calls s (snd (block e req s))"
  by (simp add: block_def Let_def only_calls_reply split: option.splits)

lemma only_calls_unblock: "only_calls s (snd (unblock e req s))"
  by (simp add: unblock_def Let_def only_calls_reply split: option.splits)

lemma only_calls_createGroup: "only_calls s (snd (createGroup e req s))"
  by (simp add: createGroup_def Let_def only_calls_reply split: option.splits)

lemma only_calls_groupAdd: "only_calls s (snd (groupAdd e req s))"
  by (simp add: groupAdd_def Let_def only_calls_reply split: option.splits)

lemma only_calls_groupRemove: "only_calls s (snd (groupRemove e req s))"
  by (simp add: groupRemove_def Let_def only_calls_reply split: option.splits)

lemma only_calls_groupPromote: "only_calls s (snd (groupPromote e req s))"
  by (simp add: groupPromote_def Let_def only_calls_reply split: option.splits)

lemma only_calls_groupDemote: "only_calls s (snd (groupDemote e req s))"
  by (simp add: groupDemote_def Let_def only_calls_reply split: option.splits)

lemma only_calls_downloadMedia: "only_calls s (snd (downloadMedia e req s))"
  by (auto simp add: downloadMedia_def Let_def invoke_def only_calls_def
        split: option.splits sum.splits)

lemma only_calls_updateProfileName: "only_calls s (snd (updateProfileName e req s))"
  by (auto simp add: updateProfileName_def Let_def invoke_def only_calls_def
        split: option.splits sum.splits)

lemma only_calls_updateProfilePicture: "only_calls s (snd (updateProfilePicture e req s))"
  by (auto simp add: updateProfilePicture_def Let_def invoke_def only_calls_def
        split: option.splits sum.splits)

lemma only_calls_profileUpdate2: "only_calls s (snd (profileUpdate2 e req s))"
  by (auto simp add: profileUpdate2_def Let_def invoke_def only_calls_def
        split: option.splits sum.splits)

lemma only_calls_profilePicture2: "only_calls s (snd (profilePicture2 e req s))"
  by (auto simp add: profilePicture2_def Let_def invoke_def only_calls_def
        split: option.splits sum.splits)

lemma only_calls_dispatch: "only_calls s (snd (dispatch e c req s))"
  by (cases c)
    (simp_all add: only_calls_sendText only_calls_sendMedia only_calls_sendButtons
       only_calls_sendTemplate only_calls_broadcast only_calls_getChats only_calls_getMessages
       only_calls_markRead only_calls_presence only_calls_block only_calls_unblock
       only_calls_createGroup only_calls_groupAdd only_calls_groupRemove only_calls_groupPromote
       only_calls_groupDemote only_calls_getContacts only_calls_downloadMedia
       only_calls_updateProfileName only_calls_updateProfilePicture
       only_calls_profileUpdate2 only_calls_profilePicture2)

lemma sendSSE_fields [simp]:
  "sessions (sendSSE e k n d s) = sessions s"
  "reconnecting (sendSSE e k n d s) = reconnecting s"
  "sseClients (sendSSE e k n d s) = sseClients s"
  "sessionDirs (sendSSE e k n d s) = sessionDirs s"
  "timers (sendSSE e k n d s) = timers s"
  "created (sendSSE e k n d s) = created s"
  "readyState (sendSSE e k n d s) = readyState s"
  "calls (sendSSE e k n d s) = calls s"
  "downloadsDir (sendSSE e k n d s) = downloadsDir s"
  "files (sendSSE e k n d s) = files s"
  by (simp_all add: sendSSE_def Let_def split: option.splits)

lemma sendSSE_written:
  "written (sendSSE e k n d s) =
     written s @
       (case sseClients s k of
          None \<Rightarrow> []
        | Some clients \<Rightarrow>
            concat (map (sse_write e (''event: '' @ n @ nl)
                           (''data: '' @ (case d of JStr str \<Rightarrow> str | _ \<Rightarrow> JSON_stringify e d) @ nl @ nl))
                      clients))"
  by (simp add: sendSSE_def Let_def split: option.splits)

lemma sendSSE_only_written: "sendSSE e k n d s = s\<lparr>written := written (sendSSE e k n d s)\<rparr>"
  by (simp add: sendSSE_def Let_def split: option.splits)

lemma filter_sse_write_other:
  "r \<notin> set clients \<Longrightarrow> filter (\<lambda>w. fst w = r) (concat (map (sse_write e c1 c2) clients)) = []"
  by (induction clients) (auto simp add: sse_write_def)

lemma filter_sse_write_member:
  "distinct clients \<Longrightarrow> r \<in> set clients \<Longrightarrow>
   filter (\<lambda>w. fst w = r) (concat (map (sse_write e c1 c2) clients)) = sse_write e c1 c2 r"
proof (induction clients)
  case Nil
  then show ?case by simp
next
  case (Cons x xs)
  have own: "filter (\<lambda>w. fst w = x) (sse_write e c1 c2 x) = sse_write e c1 c2 x"
    by (simp add: sse_write_def)
  have other: "y \<noteq> r \<Longrightarrow> filter (\<lambda>w. fst w = r) (sse_write e c1 c2 y) = []" for y
    by (simp add: sse_write_def)
  show ?case
  proof (cases "x = r")
    case True
    with Cons.prems have "r \<notin> set xs" by simp
    then show ?thesis using True own by (simp add: filter_sse_write_other)
  next
    case False
    with Cons show ?thesis by (simp add: other)
  qed
qed

subsection \<open>Logout and the two ways a close is handled\<close>

lemma logout_response: "fst (logout e req s) = Json 200 success"
  by (simp add: logout_def Let_def)

lemma logout_fields:
  "sessions (snd (logout e req s)) = (sessions s)(userKey (req_user req) := None)"
  "sessionDirs (snd (logout e req s)) = sessionDirs s - {userKey (req_user req)}"
  "reconnecting (snd (logout e req s)) = reconnecting s"
  "sseClients (snd (logout e req s)) = sseClients s"
  "timers (snd (logout e req s)) = timers s"
  "created (snd (logout e req s)) = created s"
  "readyState (snd (logout e req s)) = readyState s"
  "downloadsDir (snd (logout e req s)) = downloadsDir s"
  "files (snd (logout e req s)) = files s"
  by (auto simp add: logout_def Let_def invoke_def split: option.splits)

lemma logout_calls:
  "calls (snd (logout e req s)) =
     calls s @ (case sessions s (userKey (req_user req)) of None \<Rightarrow> [] | Some sk \<Rightarrow> [(sk, Logout)])"
  by (simp add: logout_def Let_def invoke_def split: option.splits)

lemma logout_written:
  "written (snd (logout e req s)) =
     written s @
       (case sseClients s (userKey (req_user req)) of
          None \<Rightarrow> []
        | Some clients \<Rightarrow>
            concat (map (sse_write e (''event: logged_out'' @ nl)
                           (''data: '' @ JSON_stringify e (JObj []) @ nl @ nl)) clients))"
  by (simp add: logout_def Let_def invoke_def sendSSE_written split: option.splits)

lemma loggedOutCleanup_fields:
  "sessions (loggedOutCleanup e k s) = (sessions s)(k := None)"
  "sessionDirs (loggedOutCleanup e k s) = sessionDirs s - {k}"
  "reconnecting (loggedOutCleanup e k s) = reconnecting s"
  "sseClients (loggedOutCleanup e k s) = sseClients s"
  "timers (loggedOutCleanup e k s) = timers s"
  "created (loggedOutCleanup e k s) = created s"
  "readyState (loggedOutCleanup e k s) = readyState s"
  by (auto simp add: loggedOutCleanup_def Let_def invoke_def split: option.splits)

lemma loggedOutCleanup_calls:
  "calls (loggedOutCleanup e k s) =
     calls s @ (case sessions s k of None \<Rightarrow> [] | Some sk \<Rightarrow> [(sk, Logout)])"
  by (simp add: loggedOutCleanup_def Let_def invoke_def split: option.splits)

lemma loggedOutCleanup_written:
  "written (loggedOutCleanup e k s) =
     written s @
       (case sseClients s k of
          None \<Rightarrow> []
        | Some clients \<Rightarrow>
            concat (map (sse_write e (''event: logged_out'' @ nl)
                           (''data: '' @ JSON_stringify e (JObj []) @ nl @ nl)) clients))"
  by (simp add: loggedOutCleanup_def Let_def invoke_def sendSSE_written split: option.splits)

lemma tryReconnect_fields:
  "sessions (tryReconnect k s) = sessions s"
  "sessionDirs (tryReconnect k s) = sessionDirs s"
  "sseClients (tryReconnect k s) = sseClients s"
  "created (tryReconnect k s) = created s"
  "readyState (tryReconnect k s) = readyState s"
  "calls (tryReconnect k s) = calls s"
  "written (tryReconnect k s) = written s"
  by (simp_all add: tryReconnect_def)

subsection \<open>What each event does to the lifecycle tables\<close>

lemma same_lifecycle_refl: "same_lifecycle s s"
  by (simp add: same_lifecycle_def)

lemma only_calls_lifecycle: "only_calls s s' \<Longrightarrow> same_lifecycle s s'"
  by (simp add: only_calls_def same_lifecycle_def)

lemma createSocketForUser_present:
  "sessions s (userKey u) = Some sk \<Longrightarrow> createSocketForUser failure u s = (Inr sk, s)"
  by (simp add: createSocketForUser_unfold)

lemma createSocketForUser_registers:
  "fst (createSocketForUser failure u s) = Inr sk \<Longrightarrow>
   sessions (snd (createSocketForUser failure u s)) (userKey u) = Some sk"
  by (auto simp add: createSocketForUser_unfold Let_def split: option.splits)

lemma createSocketForUser_fields:
  "timers (snd (createSocketForUser failure u s)) = timers s"
  "reconnecting (snd (createSocketForUser failure u s)) = reconnecting s"
  "calls (snd (createSocketForUser failure u s)) = calls s"
  "sseClients (snd (createSocketForUser failure u s)) = sseClients s"
  "written (snd (createSocketForUser failure u s)) = written s"
  by (simp_all add: createSocketForUser_unfold ensureSessionDir_def Let_def split: option.splits)

lemma createSocketForUser_dirs:
  "sessionDirs s \<subseteq> sessionDirs (snd (createSocketForUser failure u s))"
  by (auto simp add: createSocketForUser_unfold ensureSessionDir_def Let_def split: option.splits)

lemma createSocketForUser_keeps_sessions:
  "sessions s k = Some sk \<Longrightarrow> sessions (snd (createSocketForUser failure u s)) k = Some sk"
  by (auto simp add: createSocketForUser_unfold ensureSessionDir_def Let_def split: option.splits)

lemma connectionUpdate_fields:
  "sessions (connectionUpdate e k u s) =
     (if connection u = Some Close \<and> statusCode u = Some (loggedOut e)
      then (sessions s)(k := None) else sessions s)"
  "sessionDirs (connectionUpdate e k u s) =
     (if connection u = Some Close \<and> statusCode u = Some (loggedOut e)
      then sessionDirs s - {k} else sessionDirs s)"
  "created (connectionUpdate e k u s) = created s"
  "calls (connectionUpdate e k u s) =
     (if connection u = Some Close \<and> statusCode u = Some (loggedOut e)
      then calls s @ (case sessions s k of None \<Rightarrow> [] | Some sk \<Rightarrow> [(sk, Logout)])
      else calls s)"
  "timers (connectionUpdate e k u s) =
     (if connection u = Some Close \<and> statusCode u \<noteq> Some (loggedOut e) \<and> reconnecting s k \<noteq> Some True
      then timers s @ [(k, 3000)] else timers s)"
  "reconnecting (connectionUpdate e k u s) =
     (if connection u = Some Close \<and> statusCode u \<noteq> Some (loggedOut e) \<and> reconnecting s k \<noteq> Some True
      then (reconnecting s)(k \<mapsto> True) else reconnecting s)"
  by (simp_all add: connectionUpdate_def Let_def onClose_def loggedOutCleanup_fields
        loggedOutCleanup_calls tryReconnect_def split: option.splits)

lemma only_calls_readReceipts: "only_calls s (snd (readReceipts e sk msgs s))"
proof (induction msgs arbitrary: s)
  case Nil
  show ?case by (simp add: only_calls_refl)
next
  case (Cons msg rest)
  let ?c = "SendReadReceipt (field (field msg ''key'') ''remoteJid'')
              (nullish (field (field msg ''key'') ''participant'') (field (field msg ''key'') ''remoteJid''))
              [field (field msg ''key'') ''id'']"
  have "only_calls s (snd (readReceipts e sk rest (snd (invoke e sk ?c s))))"
    using only_calls_invoke Cons.IH by (rule only_calls_trans)
  then show ?case
    using Cons.IH [of s] by (simp add: Let_def only_calls_refl)
qed

lemma same_lifecycle_sendSSE: "same_lifecycle s s' \<Longrightarrow> same_lifecycle s (sendSSE e k n d s')"
  by (simp add: same_lifecycle_def)

lemma same_lifecycle_readReceipts:
  "readReceipts e sk msgs s = (flag, s1) \<Longrightarrow> same_lifecycle s s1"
  using only_calls_lifecycle [OF only_calls_readReceipts, of s e sk msgs] by simp

lemma same_lifecycle_messagesUpsert: "same_lifecycle s (messagesUpsert e sk k m s)"
  by (auto simp add: messagesUpsert_def same_lifecycle_refl same_lifecycle_sendSSE
        split: jsval.splits prod.splits bool.splits dest: same_lifecycle_readReceipts)

lemma same_lifecycle_qrSSE: "same_lifecycle s (qrSSE e key r s)"
  by (simp add: qrSSE_def Let_def same_lifecycle_def split: option.splits)

lemma same_lifecycle_heartbeat: "same_lifecycle s (heartbeat e r s)"
  by (simp add: heartbeat_def same_lifecycle_def)

lemma same_lifecycle_sseClose: "same_lifecycle s (sseClose k r s)"
  by (simp add: sseClose_def Let_def same_lifecycle_def split: option.splits)

lemma same_lifecycle_dispatch: "same_lifecycle s (snd (dispatch e c req s))"
  by (rule only_calls_lifecycle) (rule only_calls_dispatch)

lemma connect_snd: "snd (connect failure req s) = snd (createSocketForUser failure (req_user req) s)"
  by (simp add: connect_def split: prod.splits sum.splits)

lemma timerFires_fields:
  "calls (timerFires k found failure s) = calls s"
  "sessionDirs s \<subseteq> sessionDirs (timerFires k found failure s)"
  "created s = take (length (created s)) (created (timerFires k found failure s))"
  by (auto simp add: timerFires_def reconnectCallback_def Let_def createSocketForUser_unfold
        ensureSessionDir_def split: option.splits)

lemma timerFires_keeps_sessions:
  "sessions s k' = Some sk \<Longrightarrow> sessions (timerFires k found failure s) k' = Some sk"
  by (auto simp add: timerFires_def reconnectCallback_def Let_def
        split: option.splits intro: createSocketForUser_keeps_sessions)

lemma step_sessions_kept:
  assumes "\<not> retires e s ev k" and "sessions s k = Some sk"
  shows "sessions (step e ev s) k = Some sk"
proof (cases ev)
  case (EvConnect failure req)
  with assms show ?thesis by (simp add: connect_snd createSocketForUser_keeps_sessions)
next
  case (EvLogout req)
  with assms show ?thesis by (auto simp add: retires_def logout_fields)
next
  case (EvCommand c req)
  with assms same_lifecycle_dispatch [of s e c req] show ?thesis
    by (simp add: same_lifecycle_def)
next
  case (EvConnectionUpdate sk' u)
  with assms show ?thesis by (auto simp add: retires_def connectionUpdate_fields)
next
  case (EvMessagesUpsert sk' m)
  with assms same_lifecycle_messagesUpsert [of s e sk' "created s ! sk'" m] show ?thesis
    by (simp add: same_lifecycle_def)
next
  case (EvTimer k' found failure)
  with assms show ?thesis by (simp add: timerFires_keeps_sessions)
next
  case (EvSubscribe key r)
  with assms same_lifecycle_qrSSE [of s e key r] show ?thesis by (simp add: same_lifecycle_def)
next
  case (EvHeartbeat r)
  with assms same_lifecycle_heartbeat [of s e r] show ?thesis by (simp add: same_lifecycle_def)
next
  case (EvSseClose k' r)
  with assms same_lifecycle_sseClose [of s k' r] show ?thesis by (simp add: same_lifecycle_def)
next
  case (EvReadyState sk' v)
  with assms show ?thesis by simp
qed

lemma step_dirs_kept:
  assumes "\<not> retires e s ev k" and "k \<in> sessionDirs s"
  shows "k \<in> sessionDirs (step e ev s)"
proof (cases ev)
  case (EvConnect failure req)
  with assms createSocketForUser_dirs [of s failure "req_user req"] show ?thesis
    by (auto simp add: connect_snd)
next
  case (EvLogout req)
  with assms show ?thesis by (auto simp add: retires_def logout_fields)
next
  case (EvCommand c req)
  with assms same_lifecycle_dispatch [of s e c req] show ?thesis
    by (simp add: same_lifecycle_def)
next
  case (EvConnectionUpdate sk' u)
  with assms show ?thesis by (auto simp add: retires_def connectionUpdate_fields)
next
  case (EvMessagesUpsert sk' m)
  with assms same_lifecycle_messagesUpsert [of s e sk' "created s ! sk'" m] show ?thesis
    by (simp add: same_lifecycle_def)
next
  case (EvTimer k' found failure)
  with assms timerFires_fields(2) [of s k' found failure] show ?thesis by auto
next
  case (EvSubscribe key r)
  with assms same_lifecycle_qrSSE [of s e key r] show ?thesis by (simp add: same_lifecycle_def)
next
  case (EvHeartbeat r)
  with assms same_lifecycle_heartbeat [of s e r] show ?thesis by (simp add: same_lifecycle_def)
next
  case (EvSseClose k' r)
  with assms same_lifecycle_sseClose [of s k' r] show ?thesis by (simp add: same_lifecycle_def)
next
  case (EvReadyState sk' v)
  with assms show ?thesis by simp
qed

subsection \<open>Reconnection timers\<close>

lemma in_remove1D: "x \<in> set (remove1 t ts) \<Longrightarrow> x \<in> set ts"
  using set_remove1_subset [of t ts] by blast

lemma distinct_fst_remove1:
  assumes "distinct (map fst ts)"
  shows "distinct (map fst (remove1 t ts))"
proof -
  from assms have "distinct ts" and "inj_on fst (set ts)"
    by (simp_all add: distinct_map)
  then have "distinct (remove1 t ts)" and "inj_on fst (set (remove1 t ts))"
    using set_remove1_subset [of t ts] by (auto intro: inj_on_subset)
  then show ?thesis by (simp add: distinct_map)
qed

lemma fst_notin_remove1:
  assumes "distinct (map fst ts)" and "t \<in> set ts" and "t' \<in> set (remove1 t ts)"
  shows "fst t' \<noteq> fst t"
proof
  assume same: "fst t' = fst t"
  from assms(1) have d: "distinct ts" and inj: "inj_on fst (set ts)"
    by (simp_all add: distinct_map)
  from d assms(3) have "t' \<in> set ts" and "t' \<noteq> t"
    by (simp_all add: set_remove1_eq)
  with inj assms(2) same show False by (auto dest: inj_onD)
qed

lemma tryReconnect_timers_guarded:
  assumes "timers_guarded s"
  shows "timers_guarded (tryReconnect k s)"
proof (cases "reconnecting s k = Some True")
  case True
  with assms show ?thesis by (simp add: tryReconnect_def)
next
  case False
  with assms have "k \<notin> fst ` set (timers s)"
    by (auto simp add: timers_guarded_def)
  with assms False show ?thesis
    by (auto simp add: tryReconnect_def timers_guarded_def)
qed

lemma connectionUpdate_timers_guarded:
  assumes "timers_guarded s"
  shows "timers_guarded (connectionUpdate e k u s)"
proof (cases "connection u = Some Close \<and> statusCode u \<noteq> Some (loggedOut e)")
  case True
  have "timers (connectionUpdate e k u s) = timers (tryReconnect k s)"
    and "reconnecting (connectionUpdate e k u s) = reconnecting (tryReconnect k s)"
    using True by (simp_all add: connectionUpdate_fields tryReconnect_def)
  moreover have "timers_guarded (tryReconnect k s)"
    using assms by (rule tryReconnect_timers_guarded)
  ultimately show ?thesis
    by (simp add: timers_guarded_def)
next
  case False
  then have "timers (connectionUpdate e k u s) = timers s"
    and "reconnecting (connectionUpdate e k u s) = reconnecting s"
    by (auto simp add: connectionUpdate_fields)
  with assms show ?thesis by (simp add: timers_guarded_def)
qed

lemma timerFires_timers:
  "timers (timerFires k found failure s) =
     (if (k, 3000) \<in> set (timers s) then remove1 (k, 3000) (timers s) else timers s)"
  "reconnecting (timerFires k found failure s) =
     (if (k, 3000) \<in> set (timers s) then (reconnecting s)(k \<mapsto> False) else reconnecting s)"
  by (simp_all add: timerFires_def reconnectCallback_def Let_def createSocketForUser_fields
        split: option.splits)

lemma timerFires_timers_guarded:
  assumes "timers_guarded s"
  shows "timers_guarded (timerFires k found failure s)"
proof (cases "(k, 3000) \<in> set (timers s)")
  case False
  with assms show ?thesis by (simp add: timers_guarded_def timerFires_timers)
next
  case True
  from assms have d: "distinct (map fst (timers s))" by (simp add: timers_guarded_def)
  have rest: "fst t \<noteq> k" if "t \<in> set (remove1 (k, 3000) (timers s))" for t
    using fst_notin_remove1 [OF d True that] by simp
  have sub: "t \<in> set (timers s)" if "t \<in> set (remove1 (k, 3000) (timers s))" for t
    using that by (rule in_remove1D)
  show ?thesis
    unfolding timers_guarded_def
  proof (intro conjI ballI)
    show "distinct (map fst (timers (timerFires k found failure s)))"
      using True d by (simp add: timerFires_timers distinct_fst_remove1)
  next
    fix t
    assume "t \<in> set (timers (timerFires k found failure s))"
    then have t: "t \<in> set (remove1 (k, 3000) (timers s))"
      using True by (simp add: timerFires_timers)
    from sub [OF t] assms have "snd t = 3000" and "reconnecting s (fst t) = Some True"
      by (simp_all add: timers_guarded_def)
    with rest [OF t] True
    show "snd t = 3000" and "reconnecting (timerFires k found failure s) (fst t) = Some True"
      by (simp_all add: timerFires_timers)
  qed
qed

lemma same_lifecycle_timers_guarded:
  "timers_guarded s \<Longrightarrow> same_lifecycle s s' \<Longrightarrow> timers_guarded s'"
  by (simp add: timers_guarded_def same_lifecycle_def)

lemma step_timers_guarded:
  assumes "timers_guarded s"
  shows "timers_guarded (step e ev s)"
proof (cases ev)
  case (EvConnect failure req)
  with assms show ?thesis
    by (simp add: connect_snd timers_guarded_def createSocketForUser_fields)
next
  case (EvLogout req)
  with assms show ?thesis by (simp add: timers_guarded_def logout_fields)
next
  case (EvCommand c req)
  with assms show ?thesis
    by (auto intro: same_lifecycle_timers_guarded same_lifecycle_dispatch)
next
  case (EvConnectionUpdate sk u)
  with assms show ?thesis by (simp add: connectionUpdate_timers_guarded)
next
  case (EvMessagesUpsert sk m)
  with assms show ?thesis
    by (auto intro: same_lifecycle_timers_guarded same_lifecycle_messagesUpsert)
next
  case (EvTimer k found failure)
  with assms show ?thesis by (simp add: timerFires_timers_guarded)
next
  case (EvSubscribe key r)
  with assms show ?thesis
    by (auto intro: same_lifecycle_timers_guarded same_lifecycle_qrSSE)
next
  case (EvHeartbeat r)
  with assms show ?thesis
    by (auto intro: same_lifecycle_timers_guarded same_lifecycle_heartbeat)
next
  case (EvSseClose k r)
  with assms show ?thesis
    by (auto intro: same_lifecycle_timers_guarded same_lifecycle_sseClose)
next
  case (EvReadyState sk v)
  with assms show ?thesis by (simp add: timers_guarded_def)
qed

lemma run_timers_guarded: "timers_guarded s \<Longrightarrow> timers_guarded (run evs s)"
proof (induction evs arbitrary: s)
  case Nil
  then show ?case by simp
next
  case (Cons x rest)
  obtain e ev where "x = (e, ev)" by (cases x)
  with Cons show ?case by (simp add: step_timers_guarded)
qed

lemma initial_timers_guarded: "timers_guarded (initial ds)"
  by (simp add: timers_guarded_def initial_def)

lemma distinct_fst_at_most_one:
  "distinct (map fst ts) \<Longrightarrow> length (filter (\<lambda>t. fst t = k) ts) \<le> 1"
proof (induction ts)
  case Nil
  then show ?case by simp
next
  case (Cons t ts)
  show ?case
  proof (cases "fst t = k")
    case True
    with Cons.prems have "k \<notin> fst ` set ts" by simp
    then have "\<forall>x \<in> set ts. fst x \<noteq> k" by (auto simp add: image_iff)
    then have "filter (\<lambda>t. fst t = k) ts = []"
      by (simp add: filter_empty_conv)
    with True show ?thesis by simp
  next
    case False
    with Cons show ?thesis by simp
  qed
qed

subsection \<open>The sinks of a tenant\<close>

lemma clients_distinct_same:
  "clients_distinct s \<Longrightarrow> sseClients s' = sseClients s \<Longrightarrow> clients_distinct s'"
  by (simp add: clients_distinct_def)

lemma qrSSE_clients_distinct: "clients_distinct s \<Longrightarrow> clients_distinct (qrSSE e key r s)"
  by (auto simp add: clients_distinct_def qrSSE_def set_add_def Let_def split: option.splits if_splits)

lemma sseClose_clients_distinct: "clients_distinct s \<Longrightarrow> clients_distinct (sseClose k r s)"
  by (auto simp add: clients_distinct_def sseClose_def Let_def distinct_removeAll
        split: option.splits if_splits)

lemma messagesUpsert_sseClients: "sseClients (messagesUpsert e sk k m s) = sseClients s"
proof -
  have loop: "sseClients s1 = sseClients s" if "readReceipts e sk msgs s = (flag, s1)" for msgs flag s1
    using only_calls_readReceipts [of s e sk msgs] that by (simp add: only_calls_def)
  show ?thesis
    by (auto simp add: messagesUpsert_def split: jsval.splits prod.splits bool.splits dest: loop)
qed

lemma connectionUpdate_sseClients: "sseClients (connectionUpdate e k u s) = sseClients s"
  by (simp add: connectionUpdate_def Let_def onClose_def loggedOutCleanup_fields
        tryReconnect_fields split: option.splits)

lemma timerFires_sseClients: "sseClients (timerFires k found failure s) = sseClients s"
  by (simp add: timerFires_def reconnectCallback_def Let_def createSocketForUser_fields
        split: option.splits)

lemma step_clients_distinct:
  assumes "clients_distinct s"
  shows "clients_distinct (step e ev s)"
proof (cases ev)
  case (EvConnect failure req)
  with assms show ?thesis
    by (auto intro: clients_distinct_same simp add: connect_snd createSocketForUser_fields)
next
  case (EvLogout req)
  with assms show ?thesis by (auto intro: clients_distinct_same simp add: logout_fields)
next
  case (EvCommand c req)
  with assms only_calls_dispatch [of s e c req] show ?thesis
    by (auto intro: clients_distinct_same simp add: only_calls_def)
next
  case (EvConnectionUpdate sk u)
  with assms show ?thesis
    by (auto intro: clients_distinct_same simp add: connectionUpdate_sseClients)
next
  case (EvMessagesUpsert sk m)
  with assms show ?thesis
    by (auto intro: clients_distinct_same simp add: messagesUpsert_sseClients)
next
  case (EvTimer k found failure)
  with assms show ?thesis
    by (auto intro: clients_distinct_same simp add: timerFires_sseClients)
next
  case (EvSubscribe key r)
  with assms show ?thesis by (simp add: qrSSE_clients_distinct)
next
  case (EvHeartbeat r)
  with assms show ?thesis by (auto intro: clients_distinct_same simp add: heartbeat_def)
next
  case (EvSseClose k r)
  with assms show ?thesis by (simp add: sseClose_clients_distinct)
next
  case (EvReadyState sk v)
  with assms show ?thesis by (auto intro: clients_distinct_same)
qed

lemma run_clients_distinct: "clients_distinct s \<Longrightarrow> clients_distinct (run evs s)"
proof (induction evs arbitrary: s)
  case Nil
  then show ?case by simp
next
  case (Cons x rest)
  obtain e ev where "x = (e, ev)" by (cases x)
  with Cons show ?case by (simp add: step_clients_distinct)
qed

lemma initial_clients_distinct: "clients_distinct (initial ds)"
  by (simp add: clients_distinct_def initial_def)

subsection \<open>One session per tenant\<close>

text \<open>
  What holds of \<open>createSocketForUser\<close> when nothing interrupts it: a call that finds a
  socket registered for the tenant returns that socket and changes nothing, so a second
  call returns the socket the first one returned, and a registered socket leaves the
  registry only through the tenant's logout or a close event with the logged-out code
  from one of the tenant's sockets.
\<close>

lemma connect_reuses_registered_socket:
  "(sessions s (userKey (req_user req)) = Some sk \<longrightarrow>
      createSocketForUser failure (req_user req) s = (Inr sk, s)
      \<and> snd (connect failure req s) = s)
   \<and> (fst (createSocketForUser failure u s) = Inr sk \<longrightarrow>
        createSocketForUser failure' u (snd (createSocketForUser failure u s))
          = (Inr sk, snd (createSocketForUser failure u s)))
   \<and> (sessions s k = Some sk \<and> sessions (step e ev s) k \<noteq> Some sk \<longrightarrow> retires e s ev k)"
proof (intro conjI impI)
  assume present: "sessions s (userKey (req_user req)) = Some sk"
  then show "createSocketForUser failure (req_user req) s = (Inr sk, s)"
    by (rule createSocketForUser_present)
  then show "snd (connect failure req s) = s"
    by (simp add: connect_snd)
next
  assume "fst (createSocketForUser failure u s) = Inr sk"
  then have "sessions (snd (createSocketForUser failure u s)) (userKey u) = Some sk"
    by (rule createSocketForUser_registers)
  then show "createSocketForUser failure' u (snd (createSocketForUser failure u s))
          = (Inr sk, snd (createSocketForUser failure u s))"
    by (rule createSocketForUser_present)
next
  assume "sessions s k = Some sk \<and> sessions (step e ev s) k \<noteq> Some sk"
  then show "retires e s ev k"
    using step_sessions_kept [of e s ev k sk] by blast
qed

text \<open>
  Claim C1 says that a tenant has at most one live session at any time. The code does not
  keep this when two calls of \<open>createSocketForUser\<close> for one tenant overlap. With no
  session registered, the first call passes the look-up in \<open>sessions\<close> and waits; the
  second call, started while the first waits, passes the same look-up; then each calls
  \<open>makeWASocket\<close> and registers its socket. Two sockets have been created for the
  tenant, \<open>logout\<close> or any other method has been invoked on neither, and the registry
  holds the second only, so no request can reach the first any more.
\<close>

theorem overlapping_connects_register_two_sockets:
  "sessions (initial {}) (userKey alice) = None
   \<and> fst (createSocketCheck alice (initial {})) = None
   \<and> fst (createSocketCheck alice (snd (createSocketCheck alice (initial {})))) = None
   \<and> created overlapped = [userKey alice, userKey alice]
   \<and> calls overlapped = []
   \<and> sessions overlapped (userKey alice) = Some 1"
  by (simp add: overlapped_def createSocketCheck_def createSocketRegister_def
        ensureSessionDir_def initial_def alice_def Let_def)

subsection \<open>Classifying a close\<close>

text \<open>
  Claim C2. Of all the status codes a close event can carry, absent included, exactly one
  is handled by the logged-out cleanup: \<open>DisconnectReason.loggedOut\<close>. Every other
  code, and no code at all, is handled by the reconnection branch. The cleanup removes the
  session and the tenant directory, tells the sinks \<open>logged_out\<close> and schedules
  nothing; the reconnection branch keeps session, directory, call trace and sink output
  and adds at most one timer of 3000 ms.
\<close>

theorem close_classified_by_loggedOut:
  "{code. \<forall>k s. onClose e k code s = loggedOutCleanup e k s} = {Some (loggedOut e)}
   \<and> (code \<noteq> Some (loggedOut e) \<longrightarrow> onClose e k code s = tryReconnect k s)
   \<and> onClose e k None s = tryReconnect k s
   \<and> connectionUpdate e k \<lparr>connection = Some Close, statusCode = code, qr = None\<rparr> s
        = onClose e k code s
   \<and> sessions (loggedOutCleanup e k s) k = None
   \<and> k \<notin> sessionDirs (loggedOutCleanup e k s)
   \<and> timers (loggedOutCleanup e k s) = timers s
   \<and> written (loggedOutCleanup e k s) =
       written s @
         (case sseClients s k of
            None \<Rightarrow> []
          | Some clients \<Rightarrow>
              concat (map (sse_write e (''event: logged_out'' @ nl)
                             (''data: '' @ JSON_stringify e (JObj []) @ nl @ nl)) clients))
   \<and> sessions (tryReconnect k s) = sessions s
   \<and> sessionDirs (tryReconnect k s) = sessionDirs s
   \<and> calls (tryReconnect k s) = calls s
   \<and> written (tryReconnect k s) = written s
   \<and> (timers (tryReconnect k s) = timers s \<or> timers (tryReconnect k s) = timers s @ [(k, 3000)])"
proof -
  have only: "{code. \<forall>k s. onClose e k code s = loggedOutCleanup e k s} = {Some (loggedOut e)}"
  proof (intro equalityI subsetI)
    fix code
    assume "code \<in> {code. \<forall>k s. onClose e k code s = loggedOutCleanup e k s}"
    then have same: "onClose e [] code (initial {}) = loggedOutCleanup e [] (initial {})"
      by blast
    have "code = Some (loggedOut e)"
    proof (rule ccontr)
      assume "code \<noteq> Some (loggedOut e)"
      then have "timers (onClose e [] code (initial {})) = [([], 3000)]"
        by (simp add: onClose_def tryReconnect_def initial_def)
      moreover have "timers (loggedOutCleanup e [] (initial {})) = []"
        by (simp add: loggedOutCleanup_fields initial_def)
      ultimately show False using same by simp
    qed
    then show "code \<in> {Some (loggedOut e)}" by simp
  next
    fix code
    assume "code \<in> {Some (loggedOut e)}"
    then show "code \<in> {code. \<forall>k s. onClose e k code s = loggedOutCleanup e k s}"
      by (simp add: onClose_def)
  qed
  have reconnect: "timers (tryReconnect k s) = timers s \<or> timers (tryReconnect k s) = timers s @ [(k, 3000)]"
    by (simp add: tryReconnect_def)
  show ?thesis
    using only reconnect
    by (simp add: onClose_def connectionUpdate_def loggedOutCleanup_fields
          loggedOutCleanup_written tryReconnect_fields)
qed

theorem close_classified_by_loggedOut_witness:
  "Some 428 \<noteq> Some (loggedOut quiet_env)
   \<and> onClose quiet_env ''a1b2'' (Some 428) linking = tryReconnect ''a1b2'' linking
   \<and> onClose quiet_env ''a1b2'' None linking = tryReconnect ''a1b2'' linking
   \<and> sessions (onClose quiet_env ''a1b2'' (Some 428) linking) ''a1b2'' = Some 0
   \<and> timers (onClose quiet_env ''a1b2'' (Some 428) linking) = [(''a1b2'', 3000)]
   \<and> sessions (onClose quiet_env ''a1b2'' (Some 401) linking) ''a1b2'' = None
   \<and> timers (onClose quiet_env ''a1b2'' (Some 401) linking) = []"
  using close_classified_by_loggedOut [of quiet_env "Some 428" "''a1b2''" linking]
  by (simp add: quiet_env_def linking_simps tryReconnect_def onClose_def loggedOutCleanup_fields)

subsection \<open>The tenant directory\<close>

text \<open>
  Claim C3. After a logout, and after a close event with the logged-out code, the tenant
  directory that holds the credentials is gone and no session is registered for the tenant.
  A close event with any other code leaves directories and registry as they were. No event
  other than these two removes an existing tenant directory; in particular the directory
  is still there after a close with another code followed by a reconnection timer.
\<close>

theorem credentials_deleted_only_when_retired:
  "(userKey (req_user req) \<notin> sessionDirs (snd (logout e req s))
      \<and> sessions (snd (logout e req s)) (userKey (req_user req)) = None)
   \<and> (sk < length (created s) \<and> connection u = Some Close \<and> statusCode u = Some (loggedOut e) \<longrightarrow>
        created s ! sk \<notin> sessionDirs (step e (EvConnectionUpdate sk u) s)
        \<and> sessions (step e (EvConnectionUpdate sk u) s) (created s ! sk) = None)
   \<and> (connection u = Some Close \<and> statusCode u \<noteq> Some (loggedOut e) \<longrightarrow>
        sessionDirs (step e (EvConnectionUpdate sk u) s) = sessionDirs s
        \<and> sessions (step e (EvConnectionUpdate sk u) s) = sessions s)
   \<and> (k \<in> sessionDirs s \<and> k \<notin> sessionDirs (step e ev s) \<longrightarrow> retires e s ev k)
   \<and> (k \<in> sessionDirs s \<and> connection u = Some Close \<and> statusCode u \<noteq> Some (loggedOut e) \<longrightarrow>
        k \<in> sessionDirs (step e' (EvTimer k' found failure) (step e (EvConnectionUpdate sk u) s)))"
proof (intro conjI impI)
  show "userKey (req_user req) \<notin> sessionDirs (snd (logout e req s))"
    and "sessions (snd (logout e req s)) (userKey (req_user req)) = None"
    by (simp_all add: logout_fields)
next
  assume t: "sk < length (created s) \<and> connection u = Some Close \<and> statusCode u = Some (loggedOut e)"
  then show "created s ! sk \<notin> sessionDirs (step e (EvConnectionUpdate sk u) s)"
    and "sessions (step e (EvConnectionUpdate sk u) s) (created s ! sk) = None"
    by (simp_all add: connectionUpdate_fields)
next
  assume t: "connection u = Some Close \<and> statusCode u \<noteq> Some (loggedOut e)"
  then show "sessionDirs (step e (EvConnectionUpdate sk u) s) = sessionDirs s"
    and "sessions (step e (EvConnectionUpdate sk u) s) = sessions s"
    by (simp_all add: connectionUpdate_fields)
next
  assume "k \<in> sessionDirs s \<and> k \<notin> sessionDirs (step e ev s)"
  then show "retires e s ev k"
    using step_dirs_kept [of e s ev k] by blast
next
  assume t: "k \<in> sessionDirs s \<and> connection u = Some Close \<and> statusCode u \<noteq> Some (loggedOut e)"
  then have "k \<in> sessionDirs (step e (EvConnectionUpdate sk u) s)"
    by (simp add: connectionUpdate_fields)
  then show "k \<in> sessionDirs (step e' (EvTimer k' found failure) (step e (EvConnectionUpdate sk u) s))"
    by (rule step_dirs_kept [rotated]) (simp add: retires_def)
qed

theorem credentials_deleted_only_when_retired_witness:
  "0 < length (created linking) \<and> connection (closing (Some 401)) = Some Close
   \<and> statusCode (closing (Some 401)) = Some (loggedOut quiet_env)
   \<and> ''a1b2'' \<in> sessionDirs linking
   \<and> ''a1b2'' \<notin> sessionDirs (step quiet_env (EvConnectionUpdate 0 (closing (Some 401))) linking)
   \<and> sessions (step quiet_env (EvConnectionUpdate 0 (closing (Some 401))) linking) ''a1b2'' = None
   \<and> retires quiet_env linking (EvConnectionUpdate 0 (closing (Some 401))) ''a1b2''
   \<and> statusCode (closing (Some 428)) \<noteq> Some (loggedOut quiet_env)
   \<and> sessionDirs (step quiet_env (EvConnectionUpdate 0 (closing (Some 428))) linking) = {''a1b2''}
   \<and> ''a1b2'' \<in> sessionDirs (step quiet_env (EvTimer ''a1b2'' (Some 1) None)
                                (step quiet_env (EvConnectionUpdate 0 (closing (Some 428))) linking))
   \<and> ''a1b2'' \<notin> sessionDirs (snd (logout quiet_env hello linking))"
  using credentials_deleted_only_when_retired
          [of hello quiet_env linking 0 "closing (Some 401)" "''a1b2''"
              "EvConnectionUpdate 0 (closing (Some 401))" quiet_env "''a1b2''" "Some 1" None]
        credentials_deleted_only_when_retired
          [of hello quiet_env linking 0 "closing (Some 428)" "''a1b2''"
              "EvConnectionUpdate 0 (closing (Some 428))" quiet_env "''a1b2''" "Some 1" None]
  by (simp add: linking_simps closing_def quiet_env_def hello_def post_def alice_def
        connectionUpdate_fields)

subsection \<open>One reconnection timer\<close>

text \<open>
  Claim C4. A close event with a code other than logged-out adds exactly one timer of
  3000 ms for the tenant and sets the guard when the guard is not set; when the guard is
  set the event changes nothing. A second such close right after the first adds no timer.
  In every state the process reaches from its start no tenant has more than one pending
  timer.
\<close>

theorem one_reconnect_timer_per_tenant:
  "(connection u = Some Close \<and> statusCode u \<noteq> Some (loggedOut e) \<and> reconnecting s k \<noteq> Some True \<longrightarrow>
      timers (connectionUpdate e k u s) = timers s @ [(k, 3000)]
      \<and> reconnecting (connectionUpdate e k u s) k = Some True)
   \<and> (connection u = Some Close \<and> statusCode u \<noteq> Some (loggedOut e) \<and> qr u = None
        \<and> reconnecting s k = Some True \<longrightarrow>
      connectionUpdate e k u s = s)
   \<and> (connection u = Some Close \<and> statusCode u \<noteq> Some (loggedOut e)
        \<and> connection u' = Some Close \<and> statusCode u' \<noteq> Some (loggedOut e') \<longrightarrow>
      timers (connectionUpdate e' k u' (connectionUpdate e k u s)) = timers (connectionUpdate e k u s))
   \<and> length (filter (\<lambda>t. fst t = k) (timers (run evs (initial ds)))) \<le> 1"
proof (intro conjI impI)
  assume "connection u = Some Close \<and> statusCode u \<noteq> Some (loggedOut e) \<and> reconnecting s k \<noteq> Some True"
  then show "timers (connectionUpdate e k u s) = timers s @ [(k, 3000)]"
    and "reconnecting (connectionUpdate e k u s) k = Some True"
    by (simp_all add: connectionUpdate_fields)
next
  assume "connection u = Some Close \<and> statusCode u \<noteq> Some (loggedOut e) \<and> qr u = None
        \<and> reconnecting s k = Some True"
  then show "connectionUpdate e k u s = s"
    by (simp add: connectionUpdate_def onClose_def tryReconnect_def)
next
  assume "connection u = Some Close \<and> statusCode u \<noteq> Some (loggedOut e)
        \<and> connection u' = Some Close \<and> statusCode u' \<noteq> Some (loggedOut e')"
  then show "timers (connectionUpdate e' k u' (connectionUpdate e k u s)) = timers (connectionUpdate e k u s)"
    by (simp add: connectionUpdate_fields)
next
  have "timers_guarded (run evs (initial ds))"
    by (rule run_timers_guarded) (rule initial_timers_guarded)
  then have "distinct (map fst (timers (run evs (initial ds))))"
    by (simp add: timers_guarded_def)
  then show "length (filter (\<lambda>t. fst t = k) (timers (run evs (initial ds)))) \<le> 1"
    by (rule distinct_fst_at_most_one)
qed

theorem one_reconnect_timer_per_tenant_witness:
  "connection (closing (Some 428)) = Some Close
   \<and> statusCode (closing (Some 428)) \<noteq> Some (loggedOut quiet_env)
   \<and> qr (closing (Some 428)) = None
   \<and> reconnecting linking ''a1b2'' \<noteq> Some True
   \<and> timers (connectionUpdate quiet_env ''a1b2'' (closing (Some 428)) linking) = [(''a1b2'', 3000)]
   \<and> reconnecting (connectionUpdate quiet_env ''a1b2'' (closing (Some 428)) linking) ''a1b2'' = Some True
   \<and> connectionUpdate quiet_env ''a1b2'' (closing None)
        (connectionUpdate quiet_env ''a1b2'' (closing (Some 428)) linking)
       = connectionUpdate quiet_env ''a1b2'' (closing (Some 428)) linking
   \<and> length (filter (\<lambda>t. fst t = ''a1b2'')
        (timers (run [(quiet_env, EvConnect None hello),
                      (quiet_env, EvConnectionUpdate 0 (closing (Some 428))),
                      (quiet_env, EvConnectionUpdate 0 (closing None))] (initial {})))) = 1"
proof -
  let ?s1 = "connectionUpdate quiet_env ''a1b2'' (closing (Some 428)) linking"
  let ?evs = "[(quiet_env, EvConnect None hello),
               (quiet_env, EvConnectionUpdate 0 (closing (Some 428))),
               (quiet_env, EvConnectionUpdate 0 (closing None))]"
  have first: "connection (closing (Some 428)) = Some Close
      \<and> statusCode (closing (Some 428)) \<noteq> Some (loggedOut quiet_env)
      \<and> reconnecting linking ''a1b2'' \<noteq> Some True"
    by (simp add: closing_def quiet_env_def linking_simps)
  have one: "timers ?s1 = timers linking @ [(''a1b2'', 3000)] \<and> reconnecting ?s1 ''a1b2'' = Some True"
    using one_reconnect_timer_per_tenant
            [of "closing (Some 428)" quiet_env linking "''a1b2''" "closing None" quiet_env ?evs "{}"]
          first by blast
  have second: "connection (closing None) = Some Close
      \<and> statusCode (closing None) \<noteq> Some (loggedOut quiet_env) \<and> qr (closing None) = None
      \<and> reconnecting ?s1 ''a1b2'' = Some True"
    using one by (simp add: closing_def)
  have noop: "connectionUpdate quiet_env ''a1b2'' (closing None) ?s1 = ?s1"
    using one_reconnect_timer_per_tenant
            [of "closing None" quiet_env ?s1 "''a1b2''" "closing None" quiet_env ?evs "{}"]
          second by blast
  have run: "timers (run ?evs (initial {})) = [(''a1b2'', 3000)]"
    by (simp add: connect_def createSocketForUser_unfold ensureSessionDir_def initial_def
          connectionUpdate_fields closing_def quiet_env_def hello_def post_def alice_def Let_def)
  show ?thesis
    using first one noop run by (simp add: closing_def linking_simps)
qed

subsection \<open>Commands without a session\<close>

text \<open>
  Claim C5, as the code has it. When no socket is registered for the caller's apiKey,
  every command of the router, in either revision, leaves the state as it was and so
  invokes nothing on a socket. It answers 400 "Session not connected" whenever its
  handler gets to the session test: always for the handlers that test the session first,
  for the handlers that destructure \<open>req.body\<close> first when the body is neither null
  nor undefined, and for the second revision's \<open>/profile-update\<close> and
  \<open>/profile-picture\<close> when the field they validate first is truthy.
\<close>

theorem dispatch_without_session:
  assumes "sessions s (userKey (req_user req)) = None"
  shows "snd (dispatch e c req s) = s
         \<and> calls (snd (dispatch e c req s)) = calls s
         \<and> ((c \<in> set body_first \<longrightarrow> \<not> is_nullish (body req))
              \<and> (c = ProfileUpdate2 \<longrightarrow> truthy (field (body req) ''name''))
              \<and> (c = ProfilePicture2 \<longrightarrow> truthy (field (body req) ''base64'')) \<longrightarrow>
             dispatch e c req s = (Json 400 (err ''Session not connected''), s))"
  using assms
  by (cases c)
    (simp_all add: notConnected_def sendText_def sendMedia_def sendButtons_def sendTemplate_def
       broadcast_def getChats_def getMessages_def markRead_def presence_def block_def
       unblock_def createGroup_def groupAdd_def groupRemove_def groupPromote_def
       groupDemote_def getContacts_def downloadMedia_def updateProfileName_def
       updateProfilePicture_def profileUpdate2_def profilePicture2_def body_first_def Let_def)

theorem dispatch_without_session_witness:
  "sessions (initial {}) (userKey (req_user hello)) = None
   \<and> SendText \<notin> set body_first
   \<and> dispatch quiet_env SendText hello (initial {})
        = (Json 400 (err ''Session not connected''), initial {})
   \<and> Block \<in> set body_first
   \<and> \<not> is_nullish (body (post (JObj [(''jid'', JStr ''62@s.whatsapp.net'')])))
   \<and> dispatch quiet_env Block (post (JObj [(''jid'', JStr ''62@s.whatsapp.net'')])) (initial {})
        = (Json 400 (err ''Session not connected''), initial {})
   \<and> truthy (field (body (post (JObj [(''name'', JStr ''Al'')]))) ''name'')
   \<and> dispatch quiet_env ProfileUpdate2 (post (JObj [(''name'', JStr ''Al'')])) (initial {})
        = (Json 400 (err ''Session not connected''), initial {})
   \<and> snd (dispatch quiet_env Block (post JUndefined) (initial {})) = initial {}"
  using dispatch_without_session [of "initial {}" hello quiet_env SendText]
        dispatch_without_session
          [of "initial {}" "post (JObj [(''jid'', JStr ''62@s.whatsapp.net'')])" quiet_env Block]
        dispatch_without_session
          [of "initial {}" "post (JObj [(''name'', JStr ''Al'')])" quiet_env ProfileUpdate2]
        dispatch_without_session [of "initial {}" "post JUndefined" quiet_env Block]
  by (simp add: initial_def hello_def post_def alice_def body_first_def)

text \<open>
  The commands test the registry entry only. After a first connect the sample tenant's
  socket is registered and not open (\<open>status\<close> reports it as not connected), and
  \<open>sendText\<close> still answers with success and has invoked \<open>sendMessage\<close>. With no
  session at all, \<open>block\<close> answers a request without a body with status 500, and the
  second revision's \<open>/profile-update\<close> answers a body without a name with
  "name required".
\<close>

theorem dispatch_unconnected_session_counterexample:
  "sessions linking (userKey (req_user hello)) = Some 0
   \<and> readyState linking 0 \<noteq> Some 1
   \<and> status hello linking = Json 200 (JObj [(''connected'', JBool False)])
   \<and> fst (dispatch quiet_env SendText hello linking)
        = Json 200 (JObj [(''success'', JBool True), (''result'', JNull)])
   \<and> fst (dispatch quiet_env SendText hello linking) \<noteq> Json 400 (err ''Session not connected'')
   \<and> calls linking = []
   \<and> calls (snd (dispatch quiet_env SendText hello linking))
        = [(0, SendMessage (JStr ''62@s.whatsapp.net'') (JObj [(''text'', JStr ''hi'')]))]
   \<and> sessions (initial {}) (userKey (req_user (post JUndefined))) = None
   \<and> fst (dispatch quiet_env Block (post JUndefined) (initial {}))
        = Json 500 (err ''Cannot destructure property jid'')
   \<and> fst (dispatch quiet_env ProfileUpdate2 (post (JObj [])) (initial {}))
        = Json 400 (err ''name required'')"
  by (simp add: linking_simps hello_def post_def alice_def status_def sendText_def
        replyResult_def invoke_def quiet_env_def err_def block_def profileUpdate2_def
        initial_def)

subsection \<open>Publishing to the sinks\<close>

text \<open>
  Claim C6, as the code has it. \<open>sendSSE\<close> removes no sink: the subscriber table is the
  same after a publish, whichever writes failed. A failing sink does not hold up the
  others: every subscribed sink that accepts the two chunks of the event receives exactly
  these two, in order, in that publish. A sink leaves the table when its request closes.
  The table of a running process never lists a sink twice.
\<close>

theorem sendSSE_skips_failing_sink:
  "sseClients (sendSSE e k n d s) = sseClients s
   \<and> (sseClients s k = Some clients \<and> distinct clients \<and> r \<in> set clients
        \<and> \<not> write_fails e r (''event: '' @ n @ nl)
        \<and> \<not> write_fails e r (''data: '' @ (case d of JStr str \<Rightarrow> str | _ \<Rightarrow> JSON_stringify e d) @ nl @ nl) \<longrightarrow>
      filter (\<lambda>w. fst w = r) (written (sendSSE e k n d s)) =
        filter (\<lambda>w. fst w = r) (written s) @
          [(r, ''event: '' @ n @ nl),
           (r, ''data: '' @ (case d of JStr str \<Rightarrow> str | _ \<Rightarrow> JSON_stringify e d) @ nl @ nl)])
   \<and> (\<forall>rest. sseClients (sseClose k r s) k = Some rest \<longrightarrow> r \<notin> set rest)
   \<and> (sseClients (run evs (initial ds)) k = Some cs \<longrightarrow> distinct cs)"
proof (intro conjI impI allI)
  show "sseClients (sendSSE e k n d s) = sseClients s" by simp
next
  assume a: "sseClients s k = Some clients \<and> distinct clients \<and> r \<in> set clients
        \<and> \<not> write_fails e r (''event: '' @ n @ nl)
        \<and> \<not> write_fails e r (''data: '' @ (case d of JStr str \<Rightarrow> str | _ \<Rightarrow> JSON_stringify e d) @ nl @ nl)"
  then show "filter (\<lambda>w. fst w = r) (written (sendSSE e k n d s)) =
        filter (\<lambda>w. fst w = r) (written s) @
          [(r, ''event: '' @ n @ nl),
           (r, ''data: '' @ (case d of JStr str \<Rightarrow> str | _ \<Rightarrow> JSON_stringify e d) @ nl @ nl)]"
    by (simp add: sendSSE_written filter_sse_write_member) (simp add: sse_write_def)
next
  fix rest
  assume "sseClients (sseClose k r s) k = Some rest"
  then show "r \<notin> set rest"
    by (auto simp add: sseClose_def Let_def split: option.splits if_splits)
next
  assume "sseClients (run evs (initial ds)) k = Some cs"
  moreover have "clients_distinct (run evs (initial ds))"
    by (rule run_clients_distinct) (rule initial_clients_distinct)
  ultimately show "distinct cs"
    by (simp add: clients_distinct_def)
qed

theorem sendSSE_skips_failing_sink_witness:
  "sseClients watched ''a1b2'' = Some [0, 1] \<and> distinct [0::nat, 1] \<and> (1::nat) \<in> set [0, 1]
   \<and> write_fails deaf_env 0 (''event: qr'' @ nl)
   \<and> \<not> write_fails deaf_env 1 (''event: qr'' @ nl)
   \<and> \<not> write_fails deaf_env 1 (''data: x'' @ nl @ nl)
   \<and> filter (\<lambda>w. fst w = 1) (written (sendSSE deaf_env ''a1b2'' ''qr'' (JStr ''x'') watched)) =
        filter (\<lambda>w. fst w = 1) (written watched) @
          [(1, ''event: qr'' @ nl), (1, ''data: x'' @ nl @ nl)]
   \<and> sseClients (sseClose ''a1b2'' 0 watched) ''a1b2'' = Some [1]
   \<and> (0::nat) \<notin> set [1]
   \<and> sseClients (run [(quiet_env, EvSubscribe (Some ''a1b2'') 0),
                          (quiet_env, EvSubscribe (Some ''a1b2'') 1)] (initial {})) ''a1b2''
       = Some [0, 1]"
  using sendSSE_skips_failing_sink
          [where e = deaf_env and k = "''a1b2''" and n = "''qr''" and d = "JStr ''x''"
             and s = watched and clients = "[0, 1]" and r = 1
             and evs = "[(quiet_env, EvSubscribe (Some ''a1b2'') 0),
                         (quiet_env, EvSubscribe (Some ''a1b2'') 1)]"
             and ds = "{}" and cs = "[0, 1]"]
  by (simp add: watched_simps deaf_env_def quiet_env_def sseClose_def qrSSE_def set_add_def
        initial_def Let_def)

text \<open>
  With sinks 0 and 1 subscribed and sink 0 failing on every write, sink 0 is still
  subscribed after the publish.
\<close>

theorem sendSSE_failing_sink_counterexample:
  "sseClients watched ''a1b2'' = Some [0, 1]
   \<and> write_fails deaf_env 0 (''event: qr'' @ nl)
   \<and> sseClients (sendSSE deaf_env ''a1b2'' ''qr'' (JStr ''x'') watched) ''a1b2'' = Some [0, 1]"
  by (simp add: watched_simps deaf_env_def quiet_env_def)

subsection \<open>Broadcast\<close>

lemma broadcastLoop_all_sent:
  "(\<And>i. i < length ns \<Longrightarrow>
      cap e (length (calls s) + i) sk (SendMessage (ns ! i) (JObj [(''text'', m)])) = Inr (r i)) \<Longrightarrow>
   broadcastLoop e sk m ns acc s =
     (Inr (acc @ map (\<lambda>i. JObj [(''to'', ns ! i), (''r'', r i)]) [0..<length ns]),
      s\<lparr>calls := calls s @ map (\<lambda>to. (sk, SendMessage to (JObj [(''text'', m)]))) ns\<rparr>)"
proof (induction ns arbitrary: acc s r)
  case Nil
  then show ?case by simp
next
  case (Cons to rest)
  let ?s1 = "s\<lparr>calls := calls s @ [(sk, SendMessage to (JObj [(''text'', m)]))]\<rparr>"
  have first: "cap e (length (calls s)) sk (SendMessage to (JObj [(''text'', m)])) = Inr (r 0)"
    using Cons.prems [of 0] by simp
  have later: "\<And>i. i < length rest \<Longrightarrow>
      cap e (length (calls ?s1) + i) sk (SendMessage (rest ! i) (JObj [(''text'', m)])) = Inr (r (Suc i))"
    using Cons.prems [of "Suc _"] by simp
  have "broadcastLoop e sk m (to # rest) acc s =
          broadcastLoop e sk m rest (acc @ [JObj [(''to'', to), (''r'', r 0)]]) ?s1"
    using first by (simp add: invoke_def)
  also have "\<dots> = (Inr ((acc @ [JObj [(''to'', to), (''r'', r 0)]]) @
                       map (\<lambda>i. JObj [(''to'', rest ! i), (''r'', r (Suc i))]) [0..<length rest]),
                  ?s1\<lparr>calls := calls ?s1 @ map (\<lambda>to. (sk, SendMessage to (JObj [(''text'', m)]))) rest\<rparr>)"
    by (rule Cons.IH [OF later])
  finally show ?case
    by (simp add: map_upt_Suc del: upt_Suc)
qed

lemma broadcastLoop_first_failure:
  "j < length ns \<Longrightarrow>
   (\<And>i. i < j \<Longrightarrow>
      cap e (length (calls s) + i) sk (SendMessage (ns ! i) (JObj [(''text'', m)])) = Inr (r i)) \<Longrightarrow>
   cap e (length (calls s) + j) sk (SendMessage (ns ! j) (JObj [(''text'', m)])) = Inl msg \<Longrightarrow>
   broadcastLoop e sk m ns acc s =
     (Inl msg,
      s\<lparr>calls := calls s @ map (\<lambda>to. (sk, SendMessage to (JObj [(''text'', m)]))) (take (Suc j) ns)\<rparr>)"
proof (induction ns arbitrary: j acc s r)
  case Nil
  then show ?case by simp
next
  case (Cons to rest)
  show ?case
  proof (cases j)
    case 0
    with Cons.prems(3) show ?thesis by (simp add: invoke_def)
  next
    case (Suc j')
    let ?s1 = "s\<lparr>calls := calls s @ [(sk, SendMessage to (JObj [(''text'', m)]))]\<rparr>"
    have first: "cap e (length (calls s)) sk (SendMessage to (JObj [(''text'', m)])) = Inr (r 0)"
      using Cons.prems(2) [of 0] Suc by simp
    have j': "j' < length rest" using Cons.prems(1) Suc by simp
    have earlier: "\<And>i. i < j' \<Longrightarrow>
        cap e (length (calls ?s1) + i) sk (SendMessage (rest ! i) (JObj [(''text'', m)])) = Inr (r (Suc i))"
      using Cons.prems(2) [of "Suc _"] Suc by simp
    have failing: "cap e (length (calls ?s1) + j') sk (SendMessage (rest ! j') (JObj [(''text'', m)])) = Inl msg"
      using Cons.prems(3) Suc by simp
    have "broadcastLoop e sk m (to # rest) acc s =
            broadcastLoop e sk m rest (acc @ [JObj [(''to'', to), (''r'', r 0)]]) ?s1"
      using first by (simp add: invoke_def)
    also have "\<dots> = (Inl msg,
        ?s1\<lparr>calls := calls ?s1 @ map (\<lambda>to. (sk, SendMessage to (JObj [(''text'', m)]))) (take (Suc j') rest)\<rparr>)"
      by (rule Cons.IH [OF j' earlier failing])
    finally show ?thesis using Suc by simp
  qed
qed

text \<open>
  Claim C7. With a session and an array of recipients, \<open>broadcast\<close> sends one text
  message per recipient, one after the other in list order, and collects one result per
  recipient: when every send returns, the answer lists the results in order and the trace
  holds one send per recipient. The first send that throws ends the batch: the sends made
  are those up to and including the failing one, nothing is sent to a later recipient, and
  the answer is the error alone, without the results collected so far.
\<close>

theorem broadcast_sequential_abort:
  assumes "sessions s (userKey (req_user req)) = Some sk"
      and "field (body req) ''numbers'' = JArr ns"
      and "field (body req) ''message'' = m"
      and "truthy m"
  shows "((\<forall>i<length ns. cap e (length (calls s) + i) sk
                            (SendMessage (ns ! i) (JObj [(''text'', m)])) = Inr (r i)) \<longrightarrow>
            broadcast e req s =
              (Json 200 (JObj [(''success'', JBool True),
                 (''results'', JArr (map (\<lambda>i. JObj [(''to'', ns ! i), (''r'', r i)]) [0..<length ns]))]),
               s\<lparr>calls := calls s @ map (\<lambda>to. (sk, SendMessage to (JObj [(''text'', m)]))) ns\<rparr>))
         \<and> (j < length ns
              \<and> (\<forall>i<j. cap e (length (calls s) + i) sk
                            (SendMessage (ns ! i) (JObj [(''text'', m)])) = Inr (r i))
              \<and> cap e (length (calls s) + j) sk
                            (SendMessage (ns ! j) (JObj [(''text'', m)])) = Inl msg \<longrightarrow>
            broadcast e req s =
              (Json 500 (err msg),
               s\<lparr>calls := calls s @
                    map (\<lambda>to. (sk, SendMessage to (JObj [(''text'', m)]))) (take (Suc j) ns)\<rparr>))"
proof (intro conjI impI)
  have body: "\<not> is_nullish (body req)"
    using assms(2) by (intro field_defined_not_nullish [of _ "''numbers''"]) simp
  assume ok: "\<forall>i<length ns. cap e (length (calls s) + i) sk
                 (SendMessage (ns ! i) (JObj [(''text'', m)])) = Inr (r i)"
  have "broadcastLoop e sk m ns [] s =
          (Inr ([] @ map (\<lambda>i. JObj [(''to'', ns ! i), (''r'', r i)]) [0..<length ns]),
           s\<lparr>calls := calls s @ map (\<lambda>to. (sk, SendMessage to (JObj [(''text'', m)]))) ns\<rparr>)"
    by (rule broadcastLoop_all_sent) (use ok in blast)
  with assms body show "broadcast e req s =
      (Json 200 (JObj [(''success'', JBool True),
         (''results'', JArr (map (\<lambda>i. JObj [(''to'', ns ! i), (''r'', r i)]) [0..<length ns]))]),
       s\<lparr>calls := calls s @ map (\<lambda>to. (sk, SendMessage to (JObj [(''text'', m)]))) ns\<rparr>)"
    by (simp add: broadcast_def)
next
  have body: "\<not> is_nullish (body req)"
    using assms(2) by (intro field_defined_not_nullish [of _ "''numbers''"]) simp
  assume bad: "j < length ns
     \<and> (\<forall>i<j. cap e (length (calls s) + i) sk (SendMessage (ns ! i) (JObj [(''text'', m)])) = Inr (r i))
     \<and> cap e (length (calls s) + j) sk (SendMessage (ns ! j) (JObj [(''text'', m)])) = Inl msg"
  have "broadcastLoop e sk m ns [] s =
          (Inl msg,
           s\<lparr>calls := calls s @
                map (\<lambda>to. (sk, SendMessage to (JObj [(''text'', m)]))) (take (Suc j) ns)\<rparr>)"
    by (rule broadcastLoop_first_failure [where r = r]) (use bad in auto)
  with assms body show "broadcast e req s =
      (Json 500 (err msg),
       s\<lparr>calls := calls s @
            map (\<lambda>to. (sk, SendMessage to (JObj [(''text'', m)]))) (take (Suc j) ns)\<rparr>)"
    by (simp add: broadcast_def)
qed

theorem broadcast_sequential_abort_witness:
  "sessions linking (userKey (req_user three)) = Some 0
   \<and> field (body three) ''numbers'' = JArr [JStr ''x'', JStr ''y'', JStr ''z'']
   \<and> truthy (field (body three) ''message'')
   \<and> broadcast quiet_env three linking =
       (Json 200 (JObj [(''success'', JBool True),
          (''results'', JArr [JObj [(''to'', JStr ''x''), (''r'', JNull)],
                              JObj [(''to'', JStr ''y''), (''r'', JNull)],
                              JObj [(''to'', JStr ''z''), (''r'', JNull)]])]),
        linking\<lparr>calls := [(0, SendMessage (JStr ''x'') (JObj [(''text'', JStr ''hi'')])),
                           (0, SendMessage (JStr ''y'') (JObj [(''text'', JStr ''hi'')])),
                           (0, SendMessage (JStr ''z'') (JObj [(''text'', JStr ''hi'')]))]\<rparr>)
   \<and> cap flaky_env 1 0 (SendMessage (JStr ''y'') (JObj [(''text'', JStr ''hi'')])) = Inl ''Timed Out''
   \<and> broadcast flaky_env three linking =
       (Json 500 (err ''Timed Out''),
        linking\<lparr>calls := [(0, SendMessage (JStr ''x'') (JObj [(''text'', JStr ''hi'')])),
                           (0, SendMessage (JStr ''y'') (JObj [(''text'', JStr ''hi'')]))]\<rparr>)"
  using broadcast_sequential_abort
          [of linking three 0 "[JStr ''x'', JStr ''y'', JStr ''z'']" "JStr ''hi''" quiet_env "\<lambda>i. JNull" 0 "[]"]
        broadcast_sequential_abort
          [of linking three 0 "[JStr ''x'', JStr ''y'', JStr ''z'']" "JStr ''hi''" flaky_env "\<lambda>i. JNull" 1 "''Timed Out''"]
  by (simp add: linking_simps three_def post_def alice_def quiet_env_def flaky_env_def
        upt_conv_Cons less_Suc_eq)

subsection \<open>Validation in sendText\<close>



subsection \<open>Status\<close>



subsection \<open>Explicit logout\<close>

text \<open>
  Claim C10. \<open>logout\<close> answers with success in every state, also when no session is
  registered (then without any socket call). Afterwards no session is registered for the
  tenant, the tenant directory is gone, and every sink subscribed to the tenant that
  accepts the two chunks has received \<open>event: logged_out\<close> and its data line, exactly
  once. A second logout succeeds again and changes nothing but the sinks' output, to which
  it writes \<open>logged_out\<close> once more. The table of a running process never lists a sink
  twice.
\<close>

theorem logout_total_idempotent:
  "fst (logout e req s) = Json 200 success
   \<and> sessions (snd (logout e req s)) (userKey (req_user req)) = None
   \<and> userKey (req_user req) \<notin> sessionDirs (snd (logout e req s))
   \<and> written (snd (logout e req s)) =
       written s @
         (case sseClients s (userKey (req_user req)) of
            None \<Rightarrow> []
          | Some clients \<Rightarrow>
              concat (map (sse_write e (''event: logged_out'' @ nl)
                             (''data: '' @ JSON_stringify e (JObj []) @ nl @ nl)) clients))
   \<and> fst (logout e' req (snd (logout e req s))) = Json 200 success
   \<and> snd (logout e' req (snd (logout e req s))) =
       (snd (logout e req s))\<lparr>written := written (snd (logout e' req (snd (logout e req s))))\<rparr>
   \<and> (sessions s (userKey (req_user req)) = None \<longrightarrow>
        fst (logout e req s) = Json 200 success \<and> calls (snd (logout e req s)) = calls s)
   \<and> (sseClients s (userKey (req_user req)) = Some clients \<and> distinct clients \<and> r \<in> set clients
        \<and> \<not> write_fails e r (''event: logged_out'' @ nl)
        \<and> \<not> write_fails e r (''data: '' @ JSON_stringify e (JObj []) @ nl @ nl) \<longrightarrow>
      filter (\<lambda>w. fst w = r) (written (snd (logout e req s))) =
        filter (\<lambda>w. fst w = r) (written s) @
          [(r, ''event: logged_out'' @ nl),
           (r, ''data: '' @ JSON_stringify e (JObj []) @ nl @ nl)])
   \<and> (sseClients (run evs (initial ds)) k = Some cs \<longrightarrow> distinct cs)"
proof -
  have emitted: "filter (\<lambda>w. fst w = r) (written (snd (logout e req s))) =
        filter (\<lambda>w. fst w = r) (written s) @
          [(r, ''event: logged_out'' @ nl),
           (r, ''data: '' @ JSON_stringify e (JObj []) @ nl @ nl)]"
    if "sseClients s (userKey (req_user req)) = Some clients \<and> distinct clients \<and> r \<in> set clients
        \<and> \<not> write_fails e r (''event: logged_out'' @ nl)
        \<and> \<not> write_fails e r (''data: '' @ JSON_stringify e (JObj []) @ nl @ nl)"
    using that by (simp add: logout_written filter_sse_write_member) (simp add: sse_write_def)
  have once: "distinct cs" if "sseClients (run evs (initial ds)) k = Some cs"
  proof -
    have "clients_distinct (run evs (initial ds))"
      by (rule run_clients_distinct) (rule initial_clients_distinct)
    with that show ?thesis by (simp add: clients_distinct_def)
  qed
  let ?s1 = "snd (logout e req s)"
  have gone: "sessions ?s1 (userKey (req_user req)) = None"
    by (simp add: logout_fields)
  have again: "snd (logout e' req ?s1) = ?s1\<lparr>written := written (snd (logout e' req ?s1))\<rparr>"
  proof -
    have "snd (logout e' req ?s1) =
            sendSSE e' (userKey (req_user req)) ''logged_out'' (JObj [])
              (?s1\<lparr>sessionDirs := sessionDirs ?s1 - {userKey (req_user req)}\<rparr>)"
      using gone by (simp add: logout_def [of e' req ?s1] Let_def)
    also have "?s1\<lparr>sessionDirs := sessionDirs ?s1 - {userKey (req_user req)}\<rparr> = ?s1"
      by (simp add: logout_fields)
    finally show ?thesis
      using sendSSE_only_written [of e' "userKey (req_user req)" "''logged_out''" "JObj []" ?s1]
      by simp
  qed
  show ?thesis
    using again emitted once
    by (simp add: logout_response logout_fields logout_written logout_calls)
qed

theorem logout_total_idempotent_witness:
  "sessions listened (userKey (req_user hello)) = Some 0
   \<and> sseClients listened (userKey (req_user hello)) = Some [0]
   \<and> \<not> write_fails quiet_env 0 (''event: logged_out'' @ nl)
   \<and> \<not> write_fails quiet_env 0 (''data: '' @ JSON_stringify quiet_env (JObj []) @ nl @ nl)
   \<and> fst (logout quiet_env hello listened) = Json 200 success
   \<and> sessions (snd (logout quiet_env hello listened)) ''a1b2'' = None
   \<and> ''a1b2'' \<notin> sessionDirs (snd (logout quiet_env hello listened))
   \<and> filter (\<lambda>w. fst w = 0) (written (snd (logout quiet_env hello listened))) =
        filter (\<lambda>w. fst w = 0) (written listened) @
          [(0, ''event: logged_out'' @ nl), (0, ''data: {}'' @ nl @ nl)]
   \<and> written (snd (logout quiet_env hello listened)) =
        written listened @ [(0, ''event: logged_out'' @ nl), (0, ''data: {}'' @ nl @ nl)]
   \<and> fst (logout quiet_env hello (snd (logout quiet_env hello listened))) = Json 200 success
   \<and> sessions (initial {}) (userKey (req_user hello)) = None
   \<and> fst (logout quiet_env hello (initial {})) = Json 200 success
   \<and> calls (snd (logout quiet_env hello (initial {}))) = calls (initial {})
   \<and> sseClients (run [(quiet_env, EvConnect None hello),
                          (quiet_env, EvSubscribe (Some ''a1b2'') 0)] (initial {})) ''a1b2''
       = Some [0]"
  using logout_total_idempotent
          [where e = quiet_env and e' = quiet_env and req = hello and s = listened
             and clients = "[0]" and r = 0 and k = "''a1b2''" and cs = "[0]" and ds = "{}"
             and evs = "[(quiet_env, EvConnect None hello),
                         (quiet_env, EvSubscribe (Some ''a1b2'') 0)]"]
        logout_total_idempotent
          [where e = quiet_env and e' = quiet_env and req = hello and s = "initial {}"]
  by (simp add: listened_simps linking_simps hello_def post_def alice_def initial_def
        quiet_env_def sse_write_def qrSSE_def set_add_def connect_def
        createSocketForUser_unfold ensureSessionDir_def Let_def)

end
